theory Spec2Isabelle
  imports
    Main
    "HOL-Library.Char_ord"
    "HOL-Library.List_Lexorder"
    "HOL-Library.Multiset"
    "HOL-Library.Sublist"
begin

chapter \<open>The operation runner over IPC and the project build cache\<close>

section \<open>JavaScript values, errors and outcomes\<close>

text \<open>
  A message that arrives over the inter-process channel has the static type \<open>unknown\<close>:
  it is whatever JSON value the child sent. Objects are association lists from property
  names to values; a property that is absent reads as \<open>undefined\<close>.
\<close>

datatype jsval =
    JUndefined
  | JNull
  | JBool bool
  | JNum int
  | JStr string
  | JArr "jsval list"
  | JObj "(string \<times> jsval) list"

datatype js_error =
    TypeError string
  | JsError string

text \<open>What an asynchronous function does in the end: it returns, it throws, or its
  promise stays pending because the event it waits for never comes.\<close>

datatype 'a outcome =
    Returns 'a
  | Throws js_error
  | NeverReturns

text \<open>The operator \<open>typeof\<close>. Note that \<open>typeof null\<close> is \<open>'object'\<close>.\<close>

fun typeof :: "jsval \<Rightarrow> string" where
  "typeof JUndefined = ''undefined''"
| "typeof JNull = ''object''"
| "typeof (JBool b) = ''boolean''"
| "typeof (JNum n) = ''number''"
| "typeof (JStr s) = ''string''"
| "typeof (JArr xs) = ''object''"
| "typeof (JObj kvs) = ''object''"

text \<open>Reading a property \<open>v.k\<close>: on \<open>null\<close> and \<open>undefined\<close> it throws a
  \<open>TypeError\<close>, whose message names the property between single quotes; on an object
  it is the stored value or \<open>undefined\<close>; the primitive values and arrays have none of
  the property names used here.\<close>

definition quoted :: "string \<Rightarrow> string" where
  "quoted k = [CHR 0x27] @ k @ [CHR 0x27]"

fun getProp :: "jsval \<Rightarrow> string \<Rightarrow> js_error + jsval" where
  "getProp JUndefined k = Inl (TypeError (''Cannot read properties of undefined (reading '' @ quoted k @ '')''))"
| "getProp JNull k = Inl (TypeError (''Cannot read properties of null (reading '' @ quoted k @ '')''))"
| "getProp (JObj kvs) k = Inr (case map_of kvs k of None \<Rightarrow> JUndefined | Some v \<Rightarrow> v)"
| "getProp v k = Inr JUndefined"

section \<open>IPCOperationRunner\<close>

subsection \<open>The message type guards\<close>

text \<open>
  Each guard is \<open>typeof message === 'object' && message.event === '<kind>'\<close>: the
  property is read only when the first conjunct holds, and the read may throw.
\<close>

definition hasEvent :: "string \<Rightarrow> jsval \<Rightarrow> js_error + bool" where
  "hasEvent kind message =
     (if typeof message = ''object''
      then (case getProp message ''event'' of
              Inl e \<Rightarrow> Inl e
            | Inr v \<Rightarrow> Inr (v = JStr kind))
      else Inr False)"

definition isAfterExecuteEventMessage :: "jsval \<Rightarrow> js_error + bool" where
  "isAfterExecuteEventMessage message = hasEvent ''after-execute'' message"

definition isRequestRunEventMessage :: "jsval \<Rightarrow> js_error + bool" where
  "isRequestRunEventMessage message = hasEvent ''requestRun'' message"

definition isSyncEventMessage :: "jsval \<Rightarrow> js_error + bool" where
  "isSyncEventMessage message = hasEvent ''sync'' message"

subsection \<open>Statuses, options and the runner's state\<close>

text \<open>
  Modelled from the spec: the enumeration \<open>OperationStatus\<close> is declared in
  \<open>./OperationStatus\<close>, which is not among the sources; its members are the ones the
  data model of the specification lists. It is a string enumeration, and the string
  behind each member is the parameter \<open>sv\<close> of the definitions below.
\<close>

datatype OperationStatus =
    Ready
  | Queued
  | Executing
  | Success
  | SuccessWithWarning
  | Failure
  | Blocked
  | Skipped
  | NoOp

datatype TerminalProviderSeverity = SevLog | SevWarning | SevError | SevVerbose

text \<open>What the child process and its streams emit, in the order the event loop delivers
  it. The exit event carries the exit code.\<close>

datatype child_event =
    OnMessage jsval
  | OnStdout string
  | OnStderr string
  | OnExit int
  | OnError string

datatype 'a promise = Pending | Resolved 'a | Rejected js_error

text \<open>The fields of \<open>IIPCOperationRunnerOptions\<close> that \<open>executeAsync\<close> reads.\<close>

record runner_options =
  shellCommand :: string
  persist :: bool

text \<open>
  The mutable variables of one call of \<open>executeAsync\<close>: the closure variables
  \<open>hasWarningOrError\<close> and \<open>isConnected\<close>, the ready promise of the runner, the status
  promise, whether the listeners of this call are attached, the exit code of the child,
  \<open>context.error\<close> (the code its message carries), and what the call has done so far
  to the outside (calls of the \<open>requestRun\<close> hook with their argument, commands sent to
  the child, lines written to the terminal).
\<close>

record runner_state =
  hasWarningOrError :: bool
  isConnected :: bool
  readyResolved :: bool
  statusPromise :: "jsval promise"
  listenersAttached :: bool
  exitCode :: "int option"
  contextError :: "int option"
  requestRunCalls :: "jsval list"
  sentCommands :: "string list"
  terminalLines :: "(TerminalProviderSeverity \<times> string) list"

definition writeLine :: "string \<Rightarrow> runner_state \<Rightarrow> runner_state" where
  "writeLine text s = s\<lparr>terminalLines := terminalLines s @ [(SevLog, text)]\<rparr>"

text \<open>The callback of \<open>this._processReadyPromise.then\<close>: it runs once, when the ready
  promise is resolved.\<close>

definition onReady :: "runner_state \<Rightarrow> runner_state" where
  "onReady s =
     (writeLine ''Child supports IPC protocol. Sending \"run\" command...'' (s\<lparr>isConnected := True\<rparr>))
       \<lparr>sentCommands := sentCommands s @ [''run'']\<rparr>"

definition resolveReadyPromise :: "runner_state \<Rightarrow> runner_state" where
  "resolveReadyPromise s = (if readyResolved s then s else onReady (s\<lparr>readyResolved := True\<rparr>))"

text \<open>A promise keeps its first settlement.\<close>

definition resolve :: "jsval \<Rightarrow> runner_state \<Rightarrow> runner_state" where
  "resolve v s = (case statusPromise s of Pending \<Rightarrow> s\<lparr>statusPromise := Resolved v\<rparr> | _ \<Rightarrow> s)"

definition reject :: "js_error \<Rightarrow> runner_state \<Rightarrow> runner_state" where
  "reject e s = (case statusPromise s of Pending \<Rightarrow> s\<lparr>statusPromise := Rejected e\<rparr> | _ \<Rightarrow> s)"

subsection \<open>The handlers\<close>

text \<open>The listener registered when the process is spawned (lines 104 to 110).\<close>

definition processMessageHandler :: "runner_state \<Rightarrow> jsval \<Rightarrow> js_error + runner_state" where
  "processMessageHandler s message =
     (case isRequestRunEventMessage message of
        Inl e \<Rightarrow> Inl e
      | Inr True \<Rightarrow>
          (case getProp message ''requestor'' of
             Inl e \<Rightarrow> Inl e
           | Inr requestor \<Rightarrow> Inr (s\<lparr>requestRunCalls := requestRunCalls s @ [requestor]\<rparr>))
      | Inr False \<Rightarrow>
          (case isSyncEventMessage message of
             Inl e \<Rightarrow> Inl e
           | Inr True \<Rightarrow> Inr (resolveReadyPromise s)
           | Inr False \<Rightarrow> Inr s))"

text \<open>\<open>finishHandler\<close> (lines 132 to 144).\<close>

definition finishHandler :: "runner_state \<Rightarrow> jsval \<Rightarrow> js_error + runner_state" where
  "finishHandler s message =
     (case isAfterExecuteEventMessage message of
        Inl e \<Rightarrow> Inl e
      | Inr True \<Rightarrow>
          (case getProp message ''status'' of
             Inl e \<Rightarrow> Inl e
           | Inr status \<Rightarrow>
               Inr (resolve status
                     (writeLine ''Disconnected from IPC process''
                       ((writeLine ''Received finish notification'' s)\<lparr>listenersAttached := False\<rparr>))))
      | Inr False \<Rightarrow> Inr s)"

text \<open>\<open>onExit\<close> (lines 146 to 160).\<close>

definition onExit :: "(OperationStatus \<Rightarrow> string) \<Rightarrow> runner_state \<Rightarrow> int \<Rightarrow> runner_state" where
  "onExit sv s code =
     (if code \<noteq> 0
      then resolve (JStr (sv Failure)) (s\<lparr>contextError := Some code\<rparr>)
      else if hasWarningOrError s then resolve (JStr (sv SuccessWithWarning)) s
      else resolve (JStr (sv Success)) s)"

definition onStdout :: "runner_state \<Rightarrow> string \<Rightarrow> runner_state" where
  "onStdout s text = s\<lparr>terminalLines := terminalLines s @ [(SevLog, text)]\<rparr>"

definition onStderr :: "runner_state \<Rightarrow> string \<Rightarrow> runner_state" where
  "onStderr s text =
     s\<lparr>terminalLines := terminalLines s @ [(SevError, text)], hasWarningOrError := True\<rparr>"

text \<open>
  One event, delivered to the listeners in the order of their registration. An exception
  in a listener leaves the emitter at once, through \<open>emit\<close>, to whoever emitted the
  event: the listeners after it do not run, and no promise of \<open>executeAsync\<close> is
  settled by it. The result is then the exception together with the state that the
  listeners before it have left (each handler throws, if it does, before its first
  effect).
\<close>

fun dispatch ::
  "(OperationStatus \<Rightarrow> string) \<Rightarrow> runner_state \<Rightarrow> child_event \<Rightarrow> (js_error \<times> runner_state) + runner_state" where
  "dispatch sv s (OnMessage message) =
     (case processMessageHandler s message of
        Inl e \<Rightarrow> Inl (e, s)
      | Inr s' \<Rightarrow>
          if listenersAttached s'
          then (case finishHandler s' message of Inl e \<Rightarrow> Inl (e, s') | Inr s'' \<Rightarrow> Inr s'')
          else Inr s')"
| "dispatch sv s (OnStdout text) = Inr (if listenersAttached s then onStdout s text else s)"
| "dispatch sv s (OnStderr text) = Inr (if listenersAttached s then onStderr s text else s)"
| "dispatch sv s (OnExit code) =
     (let s' = s\<lparr>exitCode := Some code\<rparr>
      in Inr (if listenersAttached s' then onExit sv s' code else s'))"
| "dispatch sv s (OnError text) = Inr (if listenersAttached s then reject (JsError text) s else s)"

subsection \<open>\<open>executeAsync\<close>\<close>

text \<open>The state in which the event loop goes on after an event: an exception that left
  the emitter is not seen by \<open>executeAsync\<close>.\<close>

fun stateAfter :: "(js_error \<times> runner_state) + runner_state \<Rightarrow> runner_state" where
  "stateAfter (Inl (err, s)) = s"
| "stateAfter (Inr s) = s"

text \<open>\<open>await once(subProcess, 'exit')\<close>: the exit event ends the wait, an error event
  rejects it and nothing else does, and the process listener still sees every
  message.\<close>

fun awaitExit :: "(OperationStatus \<Rightarrow> string) \<Rightarrow> runner_state \<Rightarrow> child_event list \<Rightarrow> runner_state outcome" where
  "awaitExit sv s [] = NeverReturns"
| "awaitExit sv s (OnExit code # es) = Returns (s\<lparr>exitCode := Some code\<rparr>)"
| "awaitExit sv s (OnError text # es) = Throws (JsError text)"
| "awaitExit sv s (e # es) = awaitExit sv (stateAfter (dispatch sv s e)) es"

text \<open>Lines 176 to 186: the teardown and the status that is returned; \<open>keep\<close> is
  the option \<open>persist\<close>.\<close>

definition finish :: "(OperationStatus \<Rightarrow> string) \<Rightarrow> bool \<Rightarrow> jsval \<Rightarrow> runner_state \<Rightarrow> child_event list \<Rightarrow> jsval outcome" where
  "finish sv keep status s es =
     (case (if isConnected s \<and> \<not> keep \<and> exitCode s = None
            then awaitExit sv (s\<lparr>sentCommands := sentCommands s @ [''exit'']\<rparr>) es
            else Returns s) of
        Throws e \<Rightarrow> Throws e
      | NeverReturns \<Rightarrow> NeverReturns
      | Returns s' \<Rightarrow>
          Returns (if status = JStr (sv Success) \<and> hasWarningOrError s'
                   then JStr (sv SuccessWithWarning)
                   else status))"

text \<open>The wait for the status promise (lines 131 to 174): events are handled until the
  promise is settled. It is resolved by \<open>finishHandler\<close> and \<open>onExit\<close> and rejected by
  an error event (the ready promise is never rejected: lines 100 to 102 keep only its
  \<open>resolve\<close>); an exception in a listener does not settle it.\<close>

fun awaitStatus :: "(OperationStatus \<Rightarrow> string) \<Rightarrow> bool \<Rightarrow> runner_state \<Rightarrow> child_event list \<Rightarrow> jsval outcome" where
  "awaitStatus sv keep s [] = NeverReturns"
| "awaitStatus sv keep s (e # es) =
     (let s' = stateAfter (dispatch sv s e)
      in case statusPromise s' of
           Pending \<Rightarrow> awaitStatus sv keep s' es
         | Rejected err \<Rightarrow> Throws err
         | Resolved status \<Rightarrow> finish sv keep status s' es)"

text \<open>
  The field \<open>_ipcProcess\<close> when the call begins: there is no process, or the last one
  has exited, and a new one is spawned; or a process lives on from an earlier call, and
  its ready promise has been resolved or not.
\<close>

datatype ipc_process = NoProcess | LiveProcess bool

text \<open>
  The state in which the wait begins (lines 82 to 129 and 162 to 173). When the ready
  promise is resolved already, the callback of \<open>then\<close> runs before any event.
\<close>

definition initialState :: "string \<Rightarrow> ipc_process \<Rightarrow> runner_state" where
  "initialState command process =
     (let ready = (case process of NoProcess \<Rightarrow> False | LiveProcess resolved \<Rightarrow> resolved);
          s = \<lparr>hasWarningOrError = False, isConnected = False, readyResolved = ready,
                statusPromise = Pending, listenersAttached = True, exitCode = None,
                contextError = None, requestRunCalls = [], sentCommands = [],
                terminalLines =
                  [(SevLog, case process of
                              NoProcess \<Rightarrow> ''Invoking: '' @ command
                            | LiveProcess resolved \<Rightarrow> ''Connecting to existing IPC process...'')]\<rparr>
      in if ready then onReady s else s)"

definition executeAsync ::
  "(OperationStatus \<Rightarrow> string) \<Rightarrow> runner_options \<Rightarrow> ipc_process \<Rightarrow> child_event list \<Rightarrow> jsval outcome" where
  "executeAsync sv options process es =
     awaitStatus sv (persist options) (initialState (shellCommand options) process) es"

subsection \<open>Vocabulary for the properties of the runner\<close>

text \<open>The message \<open>{ event: 'after-execute', status }\<close>; the events that leave the status
  promise pending without an exception in a listener; the events, other than the message
  \<open>null\<close>, that leave the wait for the exit of the child pending; and sample strings
  for the members of \<open>OperationStatus\<close>.\<close>

definition afterExecute :: "string \<Rightarrow> jsval" where
  "afterExecute status = JObj [(''event'', JStr ''after-execute''), (''status'', JStr status)]"

fun quiet :: "child_event \<Rightarrow> bool" where
  "quiet (OnMessage m) = (isAfterExecuteEventMessage m = Inr False)"
| "quiet (OnStdout t) = True"
| "quiet (OnStderr t) = True"
| "quiet (OnExit c) = False"
| "quiet (OnError t) = False"

fun harmless :: "child_event \<Rightarrow> bool" where
  "harmless (OnMessage m) = (m \<noteq> JNull)"
| "harmless (OnStdout t) = True"
| "harmless (OnStderr t) = True"
| "harmless (OnExit c) = False"
| "harmless (OnError t) = False"

definition rushStatus :: "OperationStatus \<Rightarrow> string" where
  "rushStatus st = (case st of
      Ready \<Rightarrow> ''READY'' | Queued \<Rightarrow> ''QUEUED'' | Executing \<Rightarrow> ''EXECUTING''
    | Success \<Rightarrow> ''SUCCESS'' | SuccessWithWarning \<Rightarrow> ''SUCCESS WITH WARNINGS''
    | Failure \<Rightarrow> ''FAILURE'' | Blocked \<Rightarrow> ''BLOCKED'' | Skipped \<Rightarrow> ''SKIPPED'' | NoOp \<Rightarrow> ''NO OP'')"

section \<open>ProjectBuildCache: the cache id\<close>

text \<open>
  A value of type \<open>string | undefined\<close> is a \<open>string option\<close>. The tests \<open>!x\<close> of the
  source take the empty string for absent as well.
\<close>

fun truthy :: "string option \<Rightarrow> bool" where
  "truthy None = False"
| "truthy (Some s) = (s \<noteq> [])"

text \<open>
  A JavaScript \<open>Set\<close> that is iterated keeps its elements in insertion order:
  \<open>add\<close> appends an element that is not in the set yet.
\<close>

definition setAdd :: "'a list \<Rightarrow> 'a \<Rightarrow> 'a list" where
  "setAdd xs x = (if x \<in> set xs then xs else xs @ [x])"

text \<open>
  The options of \<open>_getCacheId\<close> and the collaborators it calls. Projects are the values
  of a finite type \<open>'p\<close> (the project objects of one repository);
  \<open>dependencyProjects\<close> lists the dependencies of a project in declaration order.
  \<open>getProjectStateHash\<close> belongs to the \<open>PackageChangeAnalyzer\<close>, \<open>getCacheEntryId\<close>
  to the \<open>BuildCacheConfiguration\<close>, \<open>hashDelimiter\<close> to \<open>RushConstants\<close>; the
  SHA-1 digest in hexadecimal and \<open>JSON.stringify\<close> on a list of strings belong to the
  platform. None of them is among the sources, so they are parameters.
\<close>

record 'p cache_options =
  project :: 'p
  projectOutputFolderNames :: "string list option"
  command :: string
  packageName :: "'p \<Rightarrow> string"
  dependencyProjects :: "'p \<Rightarrow> 'p list"
  getProjectStateHash :: "string \<Rightarrow> string option"
  getCacheEntryId :: "string \<Rightarrow> string \<Rightarrow> string"
  hashDelimiter :: string
  sha1Hex :: "string \<Rightarrow> string"
  jsonStringify :: "string list \<Rightarrow> string"

text \<open>Lines 433 to 437: the dependencies of the project in hand that have not been
  processed are added to the next level.\<close>

fun addDependencies :: "'p set \<Rightarrow> 'p list \<Rightarrow> 'p list \<Rightarrow> 'p list" where
  "addDependencies processed newProjectsToProcess [] = newProjectsToProcess"
| "addDependencies processed newProjectsToProcess (dependency # rest) =
     addDependencies processed
       (if dependency \<in> processed then newProjectsToProcess
        else setAdd newProjectsToProcess dependency)
       rest"

text \<open>
  Lines 422 to 439: one level. Each project is marked as processed, its state is pushed,
  and its unprocessed dependencies are queued; a project without a state ends the whole
  computation (\<open>None\<close>). The state of the loop is the array \<open>projectStates\<close>, the set
  \<open>projectsThatHaveBeenProcessed\<close> and the set \<open>newProjectsToProcess\<close>.
\<close>

fun processLevel ::
  "('p \<Rightarrow> string option) \<Rightarrow> ('p \<Rightarrow> 'p list) \<Rightarrow> 'p list
    \<Rightarrow> string list \<times> 'p set \<times> 'p list \<Rightarrow> (string list \<times> 'p set \<times> 'p list) option" where
  "processLevel stateOf deps [] acc = Some acc"
| "processLevel stateOf deps (projectToProcess # rest) (projectStates, processed, newProjectsToProcess) =
     (let processed' = insert projectToProcess processed
      in case stateOf projectToProcess of
           None \<Rightarrow> None
         | Some projectState \<Rightarrow>
             if projectState = [] then None
             else processLevel stateOf deps rest
                    (projectStates @ [projectState], processed',
                     addDependencies processed' newProjectsToProcess (deps projectToProcess)))"

lemma addDependencies_set:
  "set (addDependencies processed new ds) = set new \<union> (set ds - processed)"
  by (induction ds arbitrary: new) (auto simp: setAdd_def)

lemma processLevel_processed:
  "processLevel stateOf deps level (states, processed, new) = Some (states', processed', new')
    \<Longrightarrow> processed' = processed \<union> set level"
proof (induction level arbitrary: states processed new)
  case Nil
  then show ?case by simp
next
  case (Cons p level)
  then show ?case
    by (auto simp: Let_def split: option.splits if_splits)
qed

lemma processLevel_new:
  "processLevel stateOf deps level (states, processed, new) = Some (states', processed', new')
    \<Longrightarrow> set new' \<subseteq> set new \<union> - processed"
proof (induction level arbitrary: states processed new)
  case Nil
  then show ?case by simp
next
  case (Cons p level)
  from Cons.prems obtain h where h: "stateOf p = Some h" "h \<noteq> []"
    and rest: "processLevel stateOf deps level
        (states @ [h], insert p processed, addDependencies (insert p processed) new (deps p))
        = Some (states', processed', new')"
    by (auto simp: Let_def split: option.splits if_splits)
  from Cons.IH [OF rest] show ?case
    by (auto simp: addDependencies_set)
qed

text \<open>
  Lines 415 to 442: the loop over the levels, from the set that holds the project of the
  operation alone.
\<close>

function collectProjectStates ::
  "('p::finite \<Rightarrow> string option) \<Rightarrow> ('p \<Rightarrow> 'p list) \<Rightarrow> 'p list \<Rightarrow> string list \<Rightarrow> 'p set
    \<Rightarrow> string list option" where
  "collectProjectStates stateOf deps projectsToProcess projectStates processed =
     (if projectsToProcess = [] then Some projectStates
      else case processLevel stateOf deps projectsToProcess (projectStates, processed, []) of
             None \<Rightarrow> None
           | Some (projectStates', processed', newProjectsToProcess) \<Rightarrow>
               collectProjectStates stateOf deps newProjectsToProcess projectStates' processed')"
  by pat_completeness auto

termination
proof (relation "measure (\<lambda>(stateOf, deps, level, states, processed).
          3 * card (- processed) + (if level = [] then 0 else if set level \<subseteq> processed then 2 else 1))",
       goal_cases)
  case 1
  show ?case by simp
next
  case (2 stateOf deps level states processed x2 states' y processed' new')
  then have run: "processLevel stateOf deps level (states, processed, []) = Some (states', processed', new')"
    by simp
  have p': "processed' = processed \<union> set level"
    using processLevel_processed [OF run] .
  have n': "set new' \<inter> processed = {}"
    using processLevel_new [OF run] by auto
  show ?case
  proof (cases "set level \<subseteq> processed")
    case True
    then have same: "processed' = processed" using p' by auto
    from n' same have "new' = [] \<or> \<not> set new' \<subseteq> processed'"
      by (cases new') auto
    with True same 2(1) show ?thesis by auto
  next
    case False
    then have "- processed' \<subset> - processed" using p' by auto
    then have "card (- processed') < card (- processed)"
      by (simp add: psubset_card_mono)
    with False 2(1) show ?thesis by auto
  qed
qed

declare collectProjectStates.simps [simp del]

text \<open>Lines 425 to 427: the state of a project is asked for by its package name.\<close>

definition stateOfProject :: "'p cache_options \<Rightarrow> 'p \<Rightarrow> string option" where
  "stateOfProject options p = getProjectStateHash options (packageName options p)"

text \<open>Lines 449 to 456: what the hash is fed, as one string.\<close>

definition hashInput :: "'p cache_options \<Rightarrow> string list \<Rightarrow> string list \<Rightarrow> string" where
  "hashInput options outputFolderNames sortedProjectStates =
     jsonStringify options outputFolderNames @ hashDelimiter options
       @ command options @ hashDelimiter options
       @ concat (map (\<lambda>projectHash. projectHash @ hashDelimiter options) sortedProjectStates)"

text \<open>
  \<open>_getCacheId\<close>. The states are sorted (\<open>Array.prototype.sort\<close> without a comparator:
  the order of the code units) and fed to the hash after the serialized output folder
  names and the command, each followed by the delimiter. \<open>JSON.stringify(undefined)\<close>
  is \<open>undefined\<close>, which \<open>hash.update\<close> refuses with a \<open>TypeError\<close>.
\<close>

definition getCacheId :: "('p::finite) cache_options \<Rightarrow> js_error + string option" where
  "getCacheId options =
     (case collectProjectStates (stateOfProject options)
             (dependencyProjects options) [project options] [] {} of
        None \<Rightarrow> Inr None
      | Some projectStates \<Rightarrow>
          (case projectOutputFolderNames options of
             None \<Rightarrow> Inl (TypeError ''The \"data\" argument must be of type string'')
           | Some outputFolderNames \<Rightarrow>
               Inr (Some (getCacheEntryId options (packageName options (project options))
                            (sha1Hex options (hashInput options outputFolderNames (sort projectStates)))))))"

text \<open>A repository of four projects, for the examples.\<close>

datatype proj = ProjA | ProjB | ProjC | ProjD

instantiation proj :: finite
begin

instance
proof
  have u: "(UNIV :: proj set) = {ProjA, ProjB, ProjC, ProjD}"
    using proj.exhaust by auto
  show "finite (UNIV :: proj set)"
    unfolding u by simp
qed

end

subsection \<open>Vocabulary for the properties of the cache id\<close>

text \<open>The dependency edges and the transitive dependency closure of a project, itself
  included.\<close>

definition depRel :: "('p \<Rightarrow> 'p list) \<Rightarrow> ('p \<times> 'p) set" where
  "depRel deps = {(p, d). d \<in> set (deps p)}"

definition closure :: "('p \<Rightarrow> 'p list) \<Rightarrow> 'p \<Rightarrow> 'p set" where
  "closure deps p = {q. (p, q) \<in> (depRel deps)\<^sup>*}"

text \<open>
  Sample data. In the first graph \<open>ProjA\<close> depends on \<open>ProjB\<close> and \<open>ProjC\<close>, and
  \<open>ProjB\<close> on \<open>ProjC\<close>; the second declares the two dependencies of \<open>ProjA\<close> in the
  other order. \<open>ProjD\<close> is a project whose state is unknown.
\<close>

fun sampleName :: "proj \<Rightarrow> string" where
  "sampleName ProjA = ''a''"
| "sampleName ProjB = ''b''"
| "sampleName ProjC = ''c''"
| "sampleName ProjD = ''d''"

fun sampleDeps :: "proj \<Rightarrow> proj list" where
  "sampleDeps ProjA = [ProjB, ProjC]"
| "sampleDeps ProjB = [ProjC]"
| "sampleDeps ProjC = []"
| "sampleDeps ProjD = []"

fun sampleDepsReordered :: "proj \<Rightarrow> proj list" where
  "sampleDepsReordered ProjA = [ProjC, ProjB]"
| "sampleDepsReordered ProjB = [ProjC]"
| "sampleDepsReordered ProjC = []"
| "sampleDepsReordered ProjD = []"

fun sampleDepsOnUnknown :: "proj \<Rightarrow> proj list" where
  "sampleDepsOnUnknown ProjA = [ProjB]"
| "sampleDepsOnUnknown ProjB = [ProjD]"
| "sampleDepsOnUnknown ProjC = []"
| "sampleDepsOnUnknown ProjD = []"

definition sampleStates :: "string \<Rightarrow> string option" where
  "sampleStates name =
     (if name = ''a'' then Some ''1f'' else if name = ''b'' then Some ''2e''
      else if name = ''c'' then Some ''3d'' else None)"

text \<open>The same states with those of \<open>a\<close> and \<open>b\<close> exchanged.\<close>

definition sampleStatesSwapped :: "string \<Rightarrow> string option" where
  "sampleStatesSwapped name =
     (if name = ''a'' then Some ''2e'' else if name = ''b'' then Some ''1f''
      else if name = ''c'' then Some ''3d'' else None)"

definition sampleOptions ::
  "(proj \<Rightarrow> proj list) \<Rightarrow> (string \<Rightarrow> string option) \<Rightarrow> (string \<Rightarrow> string)
    \<Rightarrow> (string list \<Rightarrow> string) \<Rightarrow> (string \<Rightarrow> string \<Rightarrow> string) \<Rightarrow> proj cache_options" where
  "sampleOptions deps states sha json entryId =
     \<lparr>project = ProjA, projectOutputFolderNames = Some [''lib'', ''dist''], command = ''build'',
      packageName = sampleName, dependencyProjects = deps, getProjectStateHash = states,
      getCacheEntryId = entryId, hashDelimiter = ''|'', sha1Hex = sha, jsonStringify = json\<rparr>"




section \<open>ProjectBuildCache: restoring and saving\<close>

subsection \<open>The world of a cache operation\<close>

text \<open>
  A cache entry is an archive: the list of its members, each a path relative to the
  project folder with the content of the file. The local cache stores an entry for a
  cache id in the file \<open>getCacheEntryPath(cacheId)\<close>; the cloud cache stores buffers.
  The files of the project are keyed by their path relative to the project folder.
  The world also keeps what the operation writes to the terminal and the calls it makes
  to its collaborators, both in order.
\<close>

type_synonym archive = "(string \<times> string) list"

datatype collaborator_call =
    LocalTryGet string
  | LocalTrySet string
  | CloudTryGet string
  | CloudTrySet string
  | DeleteFolder string
  | ReadFile string
  | TarUntar string
  | TarCreate string "string list"
  | JsTarExtract
  | JsTarCreate "string list"

record world =
  localCache :: "string \<rightharpoonup> archive"
  cloudCache :: "string \<rightharpoonup> archive"
  projectFiles :: "string \<rightharpoonup> string"
  terminalOutput :: "(TerminalProviderSeverity \<times> string) list"
  calls :: "collaborator_call list"

definition terminalWrite :: "TerminalProviderSeverity \<Rightarrow> string \<Rightarrow> world \<Rightarrow> world" where
  "terminalWrite severity text w = w\<lparr>terminalOutput := terminalOutput w @ [(severity, text)]\<rparr>"

definition recordCall :: "collaborator_call \<Rightarrow> world \<Rightarrow> world" where
  "recordCall c w = w\<lparr>calls := calls w @ [c]\<rparr>"

text \<open>
  What the collaborators do in one call of a cache operation, where the source leaves
  it to them: whether the \<open>tar\<close> executable was found, the exit codes of \<open>tar\<close>,
  whether the in-process archiver, a file read, a folder deletion or the write of the
  local provider fails, what the cloud provider answers to a write, and the archive that
  packing a list of paths gives. An extraction that fails has written the first
  \<open>tarUntarProgress\<close> (or \<open>jsUntarProgress\<close>) members of the archive.
\<close>

record environment =
  tarAvailable :: bool
  tarUntarExitCode :: int
  tarUntarProgress :: nat
  jsUntarFails :: bool
  jsUntarProgress :: nat
  readFileFails :: bool
  deleteFolderFails :: "string \<Rightarrow> bool"
  localSetFails :: bool
  tarCreateExitCode :: int
  jsTarCreateFails :: bool
  cloudSetResult :: bool
  packFiles :: "string list \<Rightarrow> archive"

record cloud_provider =
  isCacheWriteAllowed :: bool

text \<open>The fields of a \<open>ProjectBuildCache\<close>; \<open>getCacheEntryPath\<close> is the method of its
  local provider.\<close>

record ProjectBuildCache =
  projectFolder :: string
  cloudBuildCacheProvider :: "cloud_provider option"
  outputFolderNames :: "string list"
  cacheId :: "string option"
  getCacheEntryPath :: "string \<Rightarrow> string"

text \<open>The constructor (lines 47 to 53): an absent list of output folder names becomes
  the empty list, and the cache id is computed once.\<close>

definition newProjectBuildCache ::
  "('p::finite) cache_options \<Rightarrow> string \<Rightarrow> cloud_provider option \<Rightarrow> (string \<Rightarrow> string)
    \<Rightarrow> js_error + ProjectBuildCache" where
  "newProjectBuildCache options folder cloud entryPath =
     (case getCacheId options of
        Inl e \<Rightarrow> Inl e
      | Inr cid \<Rightarrow>
          Inr \<lparr>projectFolder = folder,
               cloudBuildCacheProvider = cloud,
               outputFolderNames = (case projectOutputFolderNames options of None \<Rightarrow> [] | Some names \<Rightarrow> names),
               cacheId = cid,
               getCacheEntryPath = entryPath\<rparr>)"

fun joinWith :: "string \<Rightarrow> string list \<Rightarrow> string" where
  "joinWith separator [] = []"
| "joinWith separator [x] = x"
| "joinWith separator (x # xs) = x @ separator @ joinWith separator xs"

subsection \<open>The file system and the archivers\<close>

text \<open>
  Modelled from the spec: \<open>FileSystem.deleteFolderAsync\<close> (node-core-library) and the
  extraction of an archive (\<open>TarExecutable.tryUntarAsync\<close>, the package \<open>tar\<close>) are not
  among the sources. Deleting a folder removes the folder and every file below it;
  extracting an archive writes each member, a later member over an earlier one of the
  same path.
\<close>

definition inFolder :: "string \<Rightarrow> string \<Rightarrow> bool" where
  "inFolder folder path = (path = folder \<or> prefix (folder @ ''/'') path)"

definition deleteFolder :: "string \<Rightarrow> (string \<rightharpoonup> string) \<Rightarrow> (string \<rightharpoonup> string)" where
  "deleteFolder folder fs = (\<lambda>path. if inFolder folder path then None else fs path)"

definition extractEntries :: "archive \<Rightarrow> (string \<rightharpoonup> string) \<Rightarrow> (string \<rightharpoonup> string)" where
  "extractEntries entries fs = foldl (\<lambda>m (path, content). m(path \<mapsto> content)) fs entries"

subsection \<open>\<open>tryRestoreFromCacheAsync\<close>\<close>

text \<open>
  Lines 118 to 144: the local provider is asked first; the cloud provider, if there is
  one, only when the local answer is absent. A buffer from the cloud is written to the
  local cache inside \<open>try\<close>. The result is \<open>localCacheEntryPath\<close>, \<open>cacheEntryBuffer\<close>
  and \<open>updateLocalCacheSuccess\<close>.
\<close>

definition queryCaches ::
  "ProjectBuildCache \<Rightarrow> environment \<Rightarrow> string \<Rightarrow> world
    \<Rightarrow> (string option \<times> archive option \<times> bool option) \<times> world" where
  "queryCaches c env cid w0 =
     (let w1 = recordCall (LocalTryGet cid) w0;
          localCacheEntryPath =
            (if localCache w1 cid = None then None else Some (getCacheEntryPath c cid))
      in if \<not> truthy localCacheEntryPath \<and> cloudBuildCacheProvider c \<noteq> None
         then
           (let w2 = recordCall (CloudTryGet cid)
                      (terminalWrite SevVerbose
                        ''This project was not found in the local build cache. Querying the cloud build cache.''
                        w1)
            in case cloudCache w2 cid of
                 None \<Rightarrow> ((localCacheEntryPath, None, None), w2)
               | Some cacheEntryBuffer \<Rightarrow>
                   (let w3 = recordCall (LocalTrySet cid) w2
                    in if localSetFails env
                       then ((localCacheEntryPath, Some cacheEntryBuffer, Some False), w3)
                       else ((Some (getCacheEntryPath c cid), Some cacheEntryBuffer, Some True),
                             w3\<lparr>localCache := (localCache w3)(cid \<mapsto> cacheEntryBuffer)\<rparr>)))
         else ((localCacheEntryPath, None, None), w1))"

text \<open>Lines 155 to 161: every deletion is started; the promise of all of them is rejected
  when one fails. The flag says whether one failed.\<close>

fun deleteFolders :: "environment \<Rightarrow> string \<Rightarrow> string list \<Rightarrow> world \<Rightarrow> bool \<times> world" where
  "deleteFolders env folder [] w = (False, w)"
| "deleteFolders env folder (outputFolderName # rest) w =
     (let w1 = recordCall (DeleteFolder (folder @ ''/'' @ outputFolderName)) w;
          w2 = (if deleteFolderFails env outputFolderName then w1
                else w1\<lparr>projectFiles := deleteFolder outputFolderName (projectFiles w1)\<rparr>);
          (failed, w3) = deleteFolders env folder rest w2
      in (deleteFolderFails env outputFolderName \<or> failed, w3))"

text \<open>Lines 165 to 175: \<open>tar\<close> on the entry of the local cache. The text of the warning
  is given without the exit code.\<close>

definition untarWithUtility :: "ProjectBuildCache \<Rightarrow> environment \<Rightarrow> string \<Rightarrow> world \<Rightarrow> bool \<times> world" where
  "untarWithUtility c env cid w0 =
     (let w1 = recordCall (TarUntar (getCacheEntryPath c cid)) w0;
          warn = terminalWrite SevWarning
                   ''\"tar\" exited with a nonzero code while attempting to restore cache entry. Rush will attempt to extract from the cache entry with a JavaScript implementation of tar.''
      in case localCache w1 cid of
           None \<Rightarrow> (False, warn w1)
         | Some entries \<Rightarrow>
             if tarUntarExitCode env = 0
             then (True, w1\<lparr>projectFiles := extractEntries entries (projectFiles w1)\<rparr>)
             else (False, warn (w1\<lparr>projectFiles :=
                            extractEntries (take (tarUntarProgress env) entries) (projectFiles w1)\<rparr>)))"

definition readFileToBuffer :: "ProjectBuildCache \<Rightarrow> environment \<Rightarrow> string \<Rightarrow> world \<Rightarrow> (js_error + archive) \<times> world" where
  "readFileToBuffer c env cid w0 =
     (let w1 = recordCall (ReadFile (getCacheEntryPath c cid)) w0
      in case localCache w1 cid of
           None \<Rightarrow> (Inl (JsError ''ENOENT: no such file or directory''), w1)
         | Some entries \<Rightarrow>
             if readFileFails env then (Inl (JsError ''the file could not be read''), w1)
             else (Inr entries, w1))"

text \<open>Lines 186 to 196: the in-process extraction, inside \<open>try\<close>.\<close>

definition untarInMemory :: "environment \<Rightarrow> archive \<Rightarrow> world \<Rightarrow> bool \<times> world" where
  "untarInMemory env cacheEntryBuffer w0 =
     (let w1 = recordCall JsTarExtract w0
      in if jsUntarFails env
         then (False, w1\<lparr>projectFiles :=
                 extractEntries (take (jsUntarProgress env) cacheEntryBuffer) (projectFiles w1)\<rparr>)
         else (True, w1\<lparr>projectFiles := extractEntries cacheEntryBuffer (projectFiles w1)\<rparr>))"

text \<open>Lines 177 to 197.\<close>

definition restoreInMemory ::
  "ProjectBuildCache \<Rightarrow> environment \<Rightarrow> string \<Rightarrow> string option \<Rightarrow> archive option \<Rightarrow> world
    \<Rightarrow> (js_error + bool) \<times> world" where
  "restoreInMemory c env cid localCacheEntryPath cacheEntryBuffer w0 =
     (case (if cacheEntryBuffer = None \<and> truthy localCacheEntryPath
            then (case readFileToBuffer c env cid w0 of
                    (Inl e, w1) \<Rightarrow> (Inl e, w1)
                  | (Inr entries, w1) \<Rightarrow> (Inr (Some entries), w1))
            else (Inr cacheEntryBuffer, w0)) of
        (Inl e, w1) \<Rightarrow> (Inl e, w1)
      | (Inr None, w1) \<Rightarrow> (Inl (JsError ''Expected the cache entry buffer to be set.''), w1)
      | (Inr (Some entries), w1) \<Rightarrow>
          (case untarInMemory env entries w1 of (restoreSuccess, w2) \<Rightarrow> (Inr restoreSuccess, w2)))"

text \<open>Lines 199 to 209.\<close>

definition reportRestore :: "bool \<Rightarrow> bool option \<Rightarrow> world \<Rightarrow> world" where
  "reportRestore restoreSuccess updateLocalCacheSuccess w0 =
     (let w1 = (if restoreSuccess
                then terminalWrite SevLog ''Successfully restored output from the build cache.'' w0
                else terminalWrite SevWarning ''Unable to restore output from the build cache.'' w0)
      in if updateLocalCacheSuccess = Some False
         then terminalWrite SevWarning
                ''Unable to update the local build cache with data from the cloud cache.'' w1
         else w1)"

text \<open>Lines 151 to 209: the entry that was found is restored. The output folders are
  purged, then \<open>tar\<close> is tried on the local entry, then the in-process extraction.\<close>

definition restoreFromEntry ::
  "ProjectBuildCache \<Rightarrow> environment \<Rightarrow> string \<Rightarrow> string option \<Rightarrow> archive option \<Rightarrow> bool option
    \<Rightarrow> world \<Rightarrow> (js_error + bool) \<times> world" where
  "restoreFromEntry c env cid localCacheEntryPath cacheEntryBuffer updateLocalCacheSuccess w1 =
     (case deleteFolders env (projectFolder c) (outputFolderNames c)
             (terminalWrite SevVerbose
                (''Clearing cached folders: '' @ joinWith '', '' (outputFolderNames c))
                (terminalWrite SevLog ''Build cache hit.'' w1)) of
        (True, w2) \<Rightarrow> (Inl (JsError ''deleteFolderAsync failed''), w2)
      | (False, w2) \<Rightarrow>
          (case (if tarAvailable env \<and> truthy localCacheEntryPath
                 then untarWithUtility c env cid w2
                 else (False, w2)) of
             (True, w3) \<Rightarrow> (Inr True, reportRestore True updateLocalCacheSuccess w3)
           | (False, w3) \<Rightarrow>
               (case restoreInMemory c env cid localCacheEntryPath cacheEntryBuffer w3 of
                  (Inl e, w4) \<Rightarrow> (Inl e, w4)
                | (Inr restoreSuccess, w4) \<Rightarrow>
                    (Inr restoreSuccess,
                     reportRestore restoreSuccess updateLocalCacheSuccess w4))))"

text \<open>Lines 118 to 209, for a cache id that is known.\<close>

definition restoreWithCacheId ::
  "ProjectBuildCache \<Rightarrow> environment \<Rightarrow> string \<Rightarrow> world \<Rightarrow> (js_error + bool) \<times> world" where
  "restoreWithCacheId c env cid w0 =
     (case queryCaches c env cid w0 of
        ((localCacheEntryPath, cacheEntryBuffer, updateLocalCacheSuccess), w1) \<Rightarrow>
          if \<not> truthy localCacheEntryPath \<and> cacheEntryBuffer = None
          then (Inr False,
                terminalWrite SevVerbose ''This project was not found in the build cache.'' w1)
          else restoreFromEntry c env cid localCacheEntryPath cacheEntryBuffer
                 updateLocalCacheSuccess w1)"

definition tryRestoreFromCacheAsync ::
  "ProjectBuildCache \<Rightarrow> environment \<Rightarrow> world \<Rightarrow> (js_error + bool) \<times> world" where
  "tryRestoreFromCacheAsync c env w =
     (case cacheId c of
        None \<Rightarrow> (Inr False, terminalWrite SevWarning ''Unable to get cache ID. Ensure Git is installed.'' w)
      | Some cid \<Rightarrow>
          if cid = []
          then (Inr False, terminalWrite SevWarning ''Unable to get cache ID. Ensure Git is installed.'' w)
          else restoreWithCacheId c env cid w)"

subsection \<open>Collecting the paths to cache\<close>

text \<open>An entry of a directory, as \<open>fs.readdir\<close> with \<open>withFileTypes\<close> gives it; a
  directory carries its own entries.\<close>

datatype dirent =
    FileEntry string
  | SymbolicLink string
  | Directory string "dirent list"

text \<open>
  \<open>_getPathsInFolder\<close> (lines 363 to 387): the paths the generator yields, and the paths
  it hands to \<open>symbolicLinkPathCallback\<close>, each in order.
\<close>

fun getPathsInFolder :: "string \<Rightarrow> dirent list \<Rightarrow> string list \<times> string list"
  and getPathsOfEntry :: "string \<Rightarrow> dirent \<Rightarrow> string list \<times> string list" where
  "getPathsInFolder posixPrefix [] = ([], [])"
| "getPathsInFolder posixPrefix (folderEntry # rest) =
     (let (yielded, links) = getPathsOfEntry posixPrefix folderEntry;
          (yielded', links') = getPathsInFolder posixPrefix rest
      in (yielded @ yielded', links @ links'))"
| "getPathsOfEntry posixPrefix (SymbolicLink name) = ([], [posixPrefix @ ''/'' @ name])"
| "getPathsOfEntry posixPrefix (Directory name entries) =
     getPathsInFolder (posixPrefix @ ''/'' @ name) entries"
| "getPathsOfEntry posixPrefix (FileEntry name) = ([posixPrefix @ ''/'' @ name], [])"

definition symbolicLinkPathCallback :: "string \<Rightarrow> world \<Rightarrow> world" where
  "symbolicLinkPathCallback entryPath w =
     terminalWrite SevError
       (''Unable to include \"'' @ entryPath @ ''\" in build cache. It is a symbolic link.'') w"

text \<open>Lines 335 to 355: the loop over the output folders that exist; it stops before
  the folder that follows an enumeration issue.\<close>

fun collectFolders ::
  "(string \<times> dirent list) list \<Rightarrow> bool \<Rightarrow> string list \<Rightarrow> world \<Rightarrow> string list option \<times> world" where
  "collectFolders [] encounteredEnumerationIssue outputFilePaths w =
     (if encounteredEnumerationIssue then None else Some outputFilePaths, w)"
| "collectFolders ((filteredOutputFolderName, entries) # rest) encounteredEnumerationIssue outputFilePaths w =
     (if encounteredEnumerationIssue then (None, w)
      else (let (yielded, links) = getPathsInFolder filteredOutputFolderName entries
            in collectFolders rest (links \<noteq> []) (outputFilePaths @ yielded)
                 (fold symbolicLinkPathCallback links w)))"

text \<open>Lines 317 to 327: the output folders that exist, each with its entries. The
  argument \<open>tree\<close> gives the entries of an output folder by its name, if it exists.\<close>

definition existingOutputFolders ::
  "ProjectBuildCache \<Rightarrow> (string \<Rightarrow> dirent list option) \<Rightarrow> (string \<times> dirent list) list" where
  "existingOutputFolders c tree =
     List.map_filter (\<lambda>name. map_option (Pair name) (tree name)) (outputFolderNames c)"

text \<open>\<open>_tryCollectPathsToCacheAsync\<close> (lines 315 to 361).\<close>

definition tryCollectPathsToCacheAsync ::
  "ProjectBuildCache \<Rightarrow> (string \<Rightarrow> dirent list option) \<Rightarrow> world
    \<Rightarrow> (string list \<times> string list) option \<times> world" where
  "tryCollectPathsToCacheAsync c tree w =
     (case collectFolders (existingOutputFolders c tree) False [] w of
        (None, w') \<Rightarrow> (None, w')
      | (Some outputFilePaths, w') \<Rightarrow>
          (Some (map fst (existingOutputFolders c tree), outputFilePaths), w'))"

subsection \<open>\<open>trySetCacheEntryAsync\<close>\<close>

text \<open>Lines 229 to 247: with the \<open>tar\<close> executable the archive is created in the file of
  the local cache entry itself.\<close>

definition createWithUtility ::
  "ProjectBuildCache \<Rightarrow> environment \<Rightarrow> string \<Rightarrow> string list \<Rightarrow> world \<Rightarrow> string option \<times> world" where
  "createWithUtility c env cid outputFilePaths w0 =
     (if tarAvailable env
      then (let w1 = recordCall (TarCreate (getCacheEntryPath c cid) outputFilePaths) w0
            in if tarCreateExitCode env = 0
               then (Some (getCacheEntryPath c cid),
                     w1\<lparr>localCache := (localCache w1)(cid \<mapsto> packFiles env outputFilePaths)\<rparr>)
               else (None,
                     terminalWrite SevWarning
                       ''\"tar\" exited with a nonzero code while attempting to create the cache entry. Rush will attempt to create the cache entry with a JavaScript implementation of tar.''
                       w1))
      else (None, w0))"

text \<open>
  Lines 249 to 270: without an entry from \<open>tar\<close>, the in-process archiver fills a buffer
  (a failure of its stream rejects the call) and the write of the local provider is
  started. The promise \<open>setLocalCacheEntryPromise\<close> is given by its settlement: the
  path, or the error of a write that failed.
\<close>

definition startLocalWrite ::
  "ProjectBuildCache \<Rightarrow> environment \<Rightarrow> string \<Rightarrow> string list \<Rightarrow> string option \<Rightarrow> world
    \<Rightarrow> (js_error + (archive option \<times> (js_error + string))) \<times> world" where
  "startLocalWrite c env cid outputFilePaths localCacheEntryPath w0 =
     (if \<not> truthy localCacheEntryPath
      then (let w1 = recordCall (JsTarCreate outputFilePaths) w0
            in if jsTarCreateFails env then (Inl (JsError ''the archive stream failed''), w1)
               else (let cacheEntryBuffer = packFiles env outputFilePaths;
                         w2 = recordCall (LocalTrySet cid) w1
                     in if localSetFails env
                        then (Inr (Some cacheEntryBuffer, Inl (JsError ''the local cache entry could not be written'')), w2)
                        else (Inr (Some cacheEntryBuffer, Inr (getCacheEntryPath c cid)),
                              w2\<lparr>localCache := (localCache w2)(cid \<mapsto> cacheEntryBuffer)\<rparr>)))
      else (case localCacheEntryPath of
              Some path \<Rightarrow> (Inr (None, Inr path), w0)
            | None \<Rightarrow> (Inr (None, Inr []), w0)))"

text \<open>
  Lines 272 to 287: the write to the cloud, only for a provider whose
  \<open>isCacheWriteAllowed\<close> is \<open>true\<close>. The promise \<open>setCloudCacheEntryPromise\<close> is given by
  the flag it resolves to.
\<close>

definition startCloudWrite ::
  "ProjectBuildCache \<Rightarrow> environment \<Rightarrow> string \<Rightarrow> string option \<Rightarrow> archive option \<Rightarrow> world
    \<Rightarrow> (js_error + bool option) \<times> world" where
  "startCloudWrite c env cid localCacheEntryPath cacheEntryBuffer w0 =
     (case cloudBuildCacheProvider c of
        None \<Rightarrow> (Inr None, w0)
      | Some provider \<Rightarrow>
          if isCacheWriteAllowed provider = True
          then
            (case (case cacheEntryBuffer of
                     Some entries \<Rightarrow> (Inr entries, w0)
                   | None \<Rightarrow>
                       if truthy localCacheEntryPath then readFileToBuffer c env cid w0
                       else (Inl (JsError ''Expected the local cache entry path to be set.''), w0)) of
               (Inl e, w1) \<Rightarrow> (Inl e, w1)
             | (Inr entries, w1) \<Rightarrow>
                 (let w2 = recordCall (CloudTrySet cid) w1
                  in if cloudSetResult env
                     then (Inr (Some True), w2\<lparr>cloudCache := (cloudCache w2)(cid \<mapsto> entries)\<rparr>)
                     else (Inr (Some False), w2)))
          else (Inr None, w0))"

text \<open>Lines 301 to 312.\<close>

definition reportSave :: "bool \<Rightarrow> string \<Rightarrow> world \<Rightarrow> bool \<times> world" where
  "reportSave updateCloudCacheSuccess localCachePath w =
     (let success = (updateCloudCacheSuccess \<and> localCachePath \<noteq> [])
      in (success,
          if success then terminalWrite SevLog ''Successfully set cache entry.'' w
          else if localCachePath = [] \<and> updateCloudCacheSuccess
          then terminalWrite SevWarning ''Unable to set local cache entry.'' w
          else if localCachePath \<noteq> [] \<and> \<not> updateCloudCacheSuccess
          then terminalWrite SevWarning ''Unable to set cloud cache entry.'' w
          else terminalWrite SevWarning ''Unable to set both cloud and local cache entries.'' w))"

text \<open>Lines 225 to 313, for a cache id that is known and paths that were collected. Both
  promises are awaited together: a rejected local write rejects the call.\<close>

definition saveWithCacheId ::
  "ProjectBuildCache \<Rightarrow> environment \<Rightarrow> string \<Rightarrow> string list \<times> string list \<Rightarrow> world
    \<Rightarrow> (js_error + bool) \<times> world" where
  "saveWithCacheId c env cid filesToCache w0 =
     (case createWithUtility c env cid (snd filesToCache)
             (terminalWrite SevVerbose
                (''Caching build output folders: '' @ joinWith '', '' (fst filesToCache)) w0) of
        (localCacheEntryPath, w1) \<Rightarrow>
          (case startLocalWrite c env cid (snd filesToCache) localCacheEntryPath w1 of
             (Inl e, w2) \<Rightarrow> (Inl e, w2)
           | (Inr (cacheEntryBuffer, setLocalCacheEntry), w2) \<Rightarrow>
               (case startCloudWrite c env cid localCacheEntryPath cacheEntryBuffer w2 of
                  (Inl e, w3) \<Rightarrow> (Inl e, w3)
                | (Inr setCloudCacheEntry, w3) \<Rightarrow>
                    (case setLocalCacheEntry of
                       Inl e \<Rightarrow> (Inl e, w3)
                     | Inr localCachePath \<Rightarrow>
                         (case reportSave (case setCloudCacheEntry of None \<Rightarrow> True | Some ok \<Rightarrow> ok)
                                 localCachePath w3 of
                            (success, w4) \<Rightarrow> (Inr success, w4))))))"

definition trySetCacheEntryAsync ::
  "ProjectBuildCache \<Rightarrow> environment \<Rightarrow> (string \<Rightarrow> dirent list option) \<Rightarrow> world
    \<Rightarrow> (js_error + bool) \<times> world" where
  "trySetCacheEntryAsync c env tree w =
     (case cacheId c of
        None \<Rightarrow> (Inr False, terminalWrite SevWarning ''Unable to get cache ID. Ensure Git is installed.'' w)
      | Some cid \<Rightarrow>
          if cid = []
          then (Inr False, terminalWrite SevWarning ''Unable to get cache ID. Ensure Git is installed.'' w)
          else (case tryCollectPathsToCacheAsync c tree w of
                  (None, w1) \<Rightarrow> (Inr False, w1)
                | (Some filesToCache, w1) \<Rightarrow> saveWithCacheId c env cid filesToCache w1))"

subsection \<open>Vocabulary for the properties of the build cache\<close>

text \<open>
  The files that are left when every folder of a list has been deleted; whether the
  local cache answers for a cache id; the entry that a restore finds (the local one
  first, the one of the cloud otherwise); the calls that purge or extract; and whether a
  directory holds a symbolic link at any depth.
\<close>

definition purge :: "string list \<Rightarrow> (string \<rightharpoonup> string) \<Rightarrow> (string \<rightharpoonup> string)" where
  "purge names fs = (\<lambda>path. if \<exists>n\<in>set names. inFolder n path then None else fs path)"

definition localHit :: "ProjectBuildCache \<Rightarrow> world \<Rightarrow> string \<Rightarrow> bool" where
  "localHit c w cid = (localCache w cid \<noteq> None \<and> getCacheEntryPath c cid \<noteq> [])"

definition foundEntry :: "ProjectBuildCache \<Rightarrow> world \<Rightarrow> string \<Rightarrow> archive option" where
  "foundEntry c w cid =
     (if localHit c w cid then localCache w cid
      else if cloudBuildCacheProvider c \<noteq> None then cloudCache w cid
      else None)"

fun isExtraction :: "collaborator_call \<Rightarrow> bool" where
  "isExtraction (TarUntar path) = True"
| "isExtraction (ReadFile path) = True"
| "isExtraction JsTarExtract = True"
| "isExtraction c = False"

definition queryCalls :: "ProjectBuildCache \<Rightarrow> world \<Rightarrow> string \<Rightarrow> collaborator_call list" where
  "queryCalls c w cid =
     LocalTryGet cid #
       (if \<not> localHit c w cid \<and> cloudBuildCacheProvider c \<noteq> None
        then CloudTryGet cid # (if cloudCache w cid \<noteq> None then [LocalTrySet cid] else [])
        else [])"

definition purgeCalls :: "ProjectBuildCache \<Rightarrow> collaborator_call list" where
  "purgeCalls c = map (\<lambda>name. DeleteFolder (projectFolder c @ ''/'' @ name)) (outputFolderNames c)"

definition backfillWarning :: "TerminalProviderSeverity \<times> string" where
  "backfillWarning = (SevWarning, ''Unable to update the local build cache with data from the cloud cache.'')"

fun hasSymbolicLink :: "dirent list \<Rightarrow> bool"
  and entryHasSymbolicLink :: "dirent \<Rightarrow> bool" where
  "hasSymbolicLink [] = False"
| "hasSymbolicLink (folderEntry # rest) = (entryHasSymbolicLink folderEntry \<or> hasSymbolicLink rest)"
| "entryHasSymbolicLink (SymbolicLink name) = True"
| "entryHasSymbolicLink (Directory name entries) = hasSymbolicLink entries"
| "entryHasSymbolicLink (FileEntry name) = False"

text \<open>The lines that report a list of paths as symbolic links.\<close>

definition symbolicLinkErrors :: "string list \<Rightarrow> (TerminalProviderSeverity \<times> string) list" where
  "symbolicLinkErrors paths =
     map (\<lambda>entryPath. (SevError,
            ''Unable to include \"'' @ entryPath @ ''\" in build cache. It is a symbolic link.'')) paths"

text \<open>
  Sample data: a project with the output folder \<open>lib\<close>, a cloud cache that holds an
  archive of one file under the cache id \<open>k1\<close>, an empty local cache, and a project
  folder with a stale file in \<open>lib\<close> and a source file outside it. In the sample
  environment nothing fails.
\<close>

definition sampleCache :: ProjectBuildCache where
  "sampleCache =
     \<lparr>projectFolder = ''/repo/a'', cloudBuildCacheProvider = Some \<lparr>isCacheWriteAllowed = True\<rparr>,
      outputFolderNames = [''lib''], cacheId = Some ''k1'',
      getCacheEntryPath = (\<lambda>cid. ''/cache/'' @ cid)\<rparr>"

definition sampleArchive :: archive where
  "sampleArchive = [(''lib/index.js'', ''new'')]"

definition sampleWorld :: world where
  "sampleWorld =
     \<lparr>localCache = Map.empty, cloudCache = [''k1'' \<mapsto> sampleArchive],
      projectFiles = [''lib/stale.js'' \<mapsto> ''old'', ''src/index.ts'' \<mapsto> ''source''],
      terminalOutput = [], calls = []\<rparr>"

definition sampleEnv :: environment where
  "sampleEnv =
     \<lparr>tarAvailable = True, tarUntarExitCode = 0, tarUntarProgress = 0, jsUntarFails = False,
      jsUntarProgress = 0, readFileFails = False, deleteFolderFails = (\<lambda>name. False),
      localSetFails = False, tarCreateExitCode = 0, jsTarCreateFails = False,
      cloudSetResult = True, packFiles = map (\<lambda>path. (path, ''data''))\<rparr>"

text \<open>Two sample output trees for \<open>lib\<close>: one with a symbolic link in a subfolder, one
  with a single file.\<close>

definition sampleTreeWithLink :: "string \<Rightarrow> dirent list option" where
  "sampleTreeWithLink name =
     (if name = ''lib''
      then Some [FileEntry ''index.js'', Directory ''sub'' [SymbolicLink ''link'', FileEntry ''a.js'']]
      else None)"

definition sampleTree :: "string \<Rightarrow> dirent list option" where
  "sampleTree name = (if name = ''lib'' then Some [FileEntry ''index.js''] else None)"

section \<open>Properties of the IPC runner\<close>

lemma hasEvent_cases:
  "m = JNull \<or> (\<exists>b. hasEvent k m = Inr b)"
  by (cases m) (auto simp: hasEvent_def)

lemma hasEvent_True_obj: "hasEvent k m = Inr True \<Longrightarrow> \<exists>kvs. m = JObj kvs"
  by (cases m) (auto simp: hasEvent_def split: if_splits)

lemma processMessageHandler_ok:
  assumes "m \<noteq> JNull"
  shows "\<exists>s'. processMessageHandler s m = Inr s'
            \<and> listenersAttached s' = listenersAttached s
            \<and> statusPromise s' = statusPromise s
            \<and> exitCode s' = exitCode s
            \<and> hasWarningOrError s' = hasWarningOrError s"
proof -
  from assms obtain b where b: "hasEvent ''requestRun'' m = Inr b"
    using hasEvent_cases by blast
  from assms obtain c where c: "hasEvent ''sync'' m = Inr c"
    using hasEvent_cases by blast
  show ?thesis
  proof (cases b)
    case True
    with b have "hasEvent ''requestRun'' m = Inr True" by simp
    then obtain kvs where "m = JObj kvs" using hasEvent_True_obj by blast
    with b True show ?thesis
      by (simp add: processMessageHandler_def isRequestRunEventMessage_def)
  next
    case False
    with b c show ?thesis
      by (cases c)
        (simp_all add: processMessageHandler_def isRequestRunEventMessage_def
          isSyncEventMessage_def resolveReadyPromise_def onReady_def writeLine_def)
  qed
qed

lemma quiet_dispatch:
  assumes "quiet e" "listenersAttached s" "statusPromise s = Pending"
  shows "\<exists>s'. dispatch sv s e = Inr s' \<and> listenersAttached s' \<and> statusPromise s' = Pending
            \<and> exitCode s' = exitCode s
            \<and> (hasWarningOrError s \<longrightarrow> hasWarningOrError s')
            \<and> ((\<exists>d. e = OnStderr d) \<longrightarrow> hasWarningOrError s')"
proof (cases e)
  case (OnMessage m)
  with assms(1) have ae: "isAfterExecuteEventMessage m = Inr False" by simp
  then have "m \<noteq> JNull" by (auto simp: isAfterExecuteEventMessage_def hasEvent_def)
  from processMessageHandler_ok [OF this, of s] obtain s' where
    s': "processMessageHandler s m = Inr s'" "listenersAttached s' = listenersAttached s"
      "statusPromise s' = statusPromise s" "exitCode s' = exitCode s"
      "hasWarningOrError s' = hasWarningOrError s" by blast
  with assms ae OnMessage show ?thesis
    by (simp add: finishHandler_def)
next
  case (OnStdout t)
  with assms show ?thesis by (simp add: onStdout_def)
next
  case (OnStderr t)
  with assms show ?thesis by (simp add: onStderr_def)
next
  case (OnExit c)
  with assms show ?thesis by simp
next
  case (OnError t)
  with assms show ?thesis by simp
qed

lemma awaitStatus_quiet:
  assumes "\<forall>e\<in>set pre. quiet e" "listenersAttached s" "statusPromise s = Pending"
  shows "\<exists>s'. listenersAttached s' \<and> statusPromise s' = Pending \<and> exitCode s' = exitCode s
            \<and> (hasWarningOrError s \<or> (\<exists>d. OnStderr d \<in> set pre) \<longrightarrow> hasWarningOrError s')
            \<and> (\<forall>rest. awaitStatus sv keep s (pre @ rest) = awaitStatus sv keep s' rest)"
  using assms
proof (induction pre arbitrary: s)
  case Nil
  then show ?case by auto
next
  case (Cons e pre)
  from Cons.prems have "quiet e" by simp
  from quiet_dispatch [OF this Cons.prems(2,3), of sv] obtain s1 where
    s1: "dispatch sv s e = Inr s1" "listenersAttached s1" "statusPromise s1 = Pending"
      "exitCode s1 = exitCode s" "hasWarningOrError s \<longrightarrow> hasWarningOrError s1"
      "(\<exists>d. e = OnStderr d) \<longrightarrow> hasWarningOrError s1" by blast
  from Cons.prems have "\<forall>e\<in>set pre. quiet e" by simp
  from Cons.IH [OF this s1(2,3)] obtain s' where
    s': "listenersAttached s'" "statusPromise s' = Pending" "exitCode s' = exitCode s1"
      "hasWarningOrError s1 \<or> (\<exists>d. OnStderr d \<in> set pre) \<longrightarrow> hasWarningOrError s'"
      "\<forall>rest. awaitStatus sv keep s1 (pre @ rest) = awaitStatus sv keep s' rest" by blast
  show ?case
  proof (intro exI [of _ s'] conjI allI)
    show "listenersAttached s'" by (rule s'(1))
    show "statusPromise s' = Pending" by (rule s'(2))
    show "exitCode s' = exitCode s" using s'(3) s1(4) by simp
    show "hasWarningOrError s \<or> (\<exists>d. OnStderr d \<in> set (e # pre)) \<longrightarrow> hasWarningOrError s'"
      using s'(4) s1(5,6) by auto
    show "awaitStatus sv keep s ((e # pre) @ rest) = awaitStatus sv keep s' rest" for rest
      using s1(1,3) s'(5) by simp
  qed
qed

lemma processMessageHandler_null:
  "processMessageHandler s JNull = Inl (TypeError ''Cannot read properties of null (reading 'event')'')"
  by (simp add: processMessageHandler_def isRequestRunEventMessage_def hasEvent_def quoted_def)

lemma detached_dispatch:
  assumes "\<not> listenersAttached s"
  shows "\<not> listenersAttached (stateAfter (dispatch sv s e))
       \<and> hasWarningOrError (stateAfter (dispatch sv s e)) = hasWarningOrError s"
proof (cases e)
  case (OnMessage m)
  show ?thesis
  proof (cases "m = JNull")
    case True
    with assms OnMessage show ?thesis by (simp add: processMessageHandler_null)
  next
    case False
    from processMessageHandler_ok [OF this, of s] assms OnMessage show ?thesis
      by auto
  qed
next
  case (OnStdout t)
  with assms show ?thesis by auto
next
  case (OnStderr t)
  with assms show ?thesis by auto
next
  case (OnExit c)
  with assms show ?thesis by auto
next
  case (OnError t)
  with assms show ?thesis by auto
qed

lemma awaitExit_keeps_warning:
  "\<not> listenersAttached s \<Longrightarrow> awaitExit sv s es = Returns s'
    \<Longrightarrow> hasWarningOrError s' = hasWarningOrError s"
proof (induction es arbitrary: s)
  case Nil
  then show ?case by simp
next
  case (Cons e es)
  show ?case
  proof (cases e)
    case (OnMessage m)
    with Cons.prems have s1: "awaitExit sv (stateAfter (dispatch sv s e)) es = Returns s'"
      by simp
    from detached_dispatch [OF Cons.prems(1), of sv e] Cons.IH [OF _ s1] show ?thesis by simp
  next
    case (OnStdout t)
    with Cons show ?thesis by simp
  next
    case (OnStderr t)
    with Cons show ?thesis by simp
  next
    case (OnExit c)
    with Cons.prems show ?thesis by auto
  next
    case (OnError t)
    with Cons.prems show ?thesis by simp
  qed
qed

lemma awaitExit_harmless:
  "\<forall>e\<in>set mid. harmless e \<Longrightarrow> \<not> listenersAttached s
    \<Longrightarrow> \<exists>s'. awaitExit sv s (mid @ OnExit c # rest) = Returns s'"
proof (induction mid arbitrary: s)
  case Nil
  then show ?case by simp
next
  case (Cons e mid)
  show ?case
  proof (cases e)
    case (OnMessage m)
    with Cons.prems have "m \<noteq> JNull" by simp
    from processMessageHandler_ok [OF this, of s] obtain s1 where
      s1: "processMessageHandler s m = Inr s1" "listenersAttached s1 = listenersAttached s" by blast
    with Cons OnMessage show ?thesis by simp
  next
    case (OnStdout t)
    with Cons show ?thesis by simp
  next
    case (OnStderr t)
    with Cons show ?thesis by simp
  next
    case (OnExit c)
    with Cons.prems show ?thesis by simp
  next
    case (OnError t)
    with Cons.prems show ?thesis by simp
  qed
qed


lemma finish_success_warning:
  assumes "hasWarningOrError s" "\<not> listenersAttached s"
  shows "(finish sv keep (JStr (sv Success)) s post = Returns v \<longrightarrow> v = JStr (sv SuccessWithWarning))"
    and "keep \<longrightarrow> finish sv keep (JStr (sv Success)) s post = Returns (JStr (sv SuccessWithWarning))"
    and "(\<forall>e\<in>set mid. harmless e) \<longrightarrow>
          finish sv keep (JStr (sv Success)) s (mid @ OnExit c # rest) = Returns (JStr (sv SuccessWithWarning))"
proof -
  let ?s = "s\<lparr>sentCommands := sentCommands s @ [''exit'']\<rparr>"
  have det: "\<not> listenersAttached ?s" and hw: "hasWarningOrError ?s" using assms by simp_all
  show "finish sv keep (JStr (sv Success)) s post = Returns v \<longrightarrow> v = JStr (sv SuccessWithWarning)"
    using assms awaitExit_keeps_warning [OF det, where sv=sv and es=post]
    by (auto simp: finish_def split: outcome.splits if_splits)
  show "keep \<longrightarrow> finish sv keep (JStr (sv Success)) s post = Returns (JStr (sv SuccessWithWarning))"
    using assms by (simp add: finish_def)
  show "(\<forall>e\<in>set mid. harmless e) \<longrightarrow>
          finish sv keep (JStr (sv Success)) s (mid @ OnExit c # rest) = Returns (JStr (sv SuccessWithWarning))"
  proof
    assume "\<forall>e\<in>set mid. harmless e"
    from awaitExit_harmless [OF this det, where sv=sv and c=c and rest=rest] obtain s' where
      s': "awaitExit sv ?s (mid @ OnExit c # rest) = Returns s'" by blast
    from awaitExit_keeps_warning [OF det s'] hw have "hasWarningOrError s'" by simp
    with s' assms show "finish sv keep (JStr (sv Success)) s (mid @ OnExit c # rest) = Returns (JStr (sv SuccessWithWarning))"
      by (simp add: finish_def)
  qed
qed

lemma afterExecute_dispatch:
  assumes "listenersAttached s" "statusPromise s = Pending"
  shows "\<exists>s'. dispatch sv s (OnMessage (afterExecute status)) = Inr s'
           \<and> statusPromise s' = Resolved (JStr status) \<and> \<not> listenersAttached s'
           \<and> hasWarningOrError s' = hasWarningOrError s"
  using assms
  by (simp add: afterExecute_def processMessageHandler_def finishHandler_def
      isRequestRunEventMessage_def isSyncEventMessage_def isAfterExecuteEventMessage_def
      hasEvent_def resolve_def writeLine_def)

lemma exit0_dispatch:
  assumes "listenersAttached s" "statusPromise s = Pending" "hasWarningOrError s"
  shows "awaitStatus sv keep s (OnExit 0 # post) = Returns (JStr (sv SuccessWithWarning))"
  using assms by (simp add: onExit_def resolve_def finish_def)

lemma initialState_props:
  "listenersAttached (initialState cmd process)" "statusPromise (initialState cmd process) = Pending"
  by (simp_all add: initialState_def Let_def onReady_def writeLine_def split: ipc_process.splits)

text \<open>
  Claim C8. Let error-stream output be observed while the status promise is pending
  (\<open>pre\<close> holds only events that neither settle the promise nor throw, and one of them
  is stream data on stderr). If the child then exits with code 0, the call returns
  \<open>SuccessWithWarning\<close>. If the child then sends \<open>after-execute\<close> with the status
  \<open>Success\<close>, the call never returns \<open>Success\<close>: whatever it returns is
  \<open>SuccessWithWarning\<close>, and it does return that when the process is kept
  (\<open>persist\<close>) or when the events that follow reach the exit of the child without a
  \<open>null\<close> message or an error event.
\<close>

theorem stderr_then_success_is_warning:
  assumes "\<forall>e\<in>set pre. quiet e" and "OnStderr d \<in> set pre"
  shows "executeAsync sv options process (pre @ OnExit 0 # post) = Returns (JStr (sv SuccessWithWarning))
       \<and> (\<forall>v. executeAsync sv options process (pre @ OnMessage (afterExecute (sv Success)) # post) = Returns v
              \<longrightarrow> v = JStr (sv SuccessWithWarning))
       \<and> (persist options \<longrightarrow>
            executeAsync sv options process (pre @ OnMessage (afterExecute (sv Success)) # post)
              = Returns (JStr (sv SuccessWithWarning)))
       \<and> (\<forall>mid c rest. post = mid @ OnExit c # rest \<and> (\<forall>e\<in>set mid. harmless e) \<longrightarrow>
            executeAsync sv options process (pre @ OnMessage (afterExecute (sv Success)) # post)
              = Returns (JStr (sv SuccessWithWarning)))"
proof -
  let ?s0 = "initialState (shellCommand options) process"
  from awaitStatus_quiet [OF assms(1) initialState_props, where sv=sv and keep="persist options"] assms(2)
  obtain s1 where s1: "listenersAttached s1" "statusPromise s1 = Pending" "hasWarningOrError s1"
    and run: "\<And>rest. awaitStatus sv (persist options) ?s0 (pre @ rest) = awaitStatus sv (persist options) s1 rest"
    by blast
  from afterExecute_dispatch [OF s1(1,2), where sv=sv and status="sv Success"] s1(3) obtain s2 where
    s2: "dispatch sv s1 (OnMessage (afterExecute (sv Success))) = Inr s2"
      "statusPromise s2 = Resolved (JStr (sv Success))" "\<not> listenersAttached s2"
      "hasWarningOrError s2" by auto
  have ae: "executeAsync sv options process (pre @ OnMessage (afterExecute (sv Success)) # post)
      = finish sv (persist options) (JStr (sv Success)) s2 post"
    using run s2 by (simp add: executeAsync_def)
  have "executeAsync sv options process (pre @ OnExit 0 # post) = Returns (JStr (sv SuccessWithWarning))"
    using run exit0_dispatch [OF s1] by (simp add: executeAsync_def)
  moreover have "\<forall>v. executeAsync sv options process (pre @ OnMessage (afterExecute (sv Success)) # post) = Returns v
              \<longrightarrow> v = JStr (sv SuccessWithWarning)"
    using finish_success_warning(1) [OF s2(4,3)] ae by simp
  moreover have "persist options \<longrightarrow>
            executeAsync sv options process (pre @ OnMessage (afterExecute (sv Success)) # post)
              = Returns (JStr (sv SuccessWithWarning))"
    using finish_success_warning(2) [OF s2(4,3)] ae by simp
  moreover have "\<forall>mid c rest. post = mid @ OnExit c # rest \<and> (\<forall>e\<in>set mid. harmless e) \<longrightarrow>
            executeAsync sv options process (pre @ OnMessage (afterExecute (sv Success)) # post)
              = Returns (JStr (sv SuccessWithWarning))"
    using finish_success_warning(3) [OF s2(4,3)] ae by auto
  ultimately show ?thesis by blast
qed

text \<open>The scenario of the specification: the child signals \<open>sync\<close>, writes to stderr,
  and reports \<open>Success\<close>; the runner was not asked to persist.\<close>

theorem stderr_then_success_is_warning_witness:
  "executeAsync rushStatus \<lparr>shellCommand = ''heft build'', persist = False\<rparr> NoProcess
     ([OnMessage (JObj [(''event'', JStr ''sync'')]), OnStdout ''compiling'', OnStderr ''deprecated'']
        @ OnMessage (afterExecute (rushStatus Success)) # [OnStderr ''late'', OnExit 0])
     = Returns (JStr ''SUCCESS WITH WARNINGS'')
   \<and> executeAsync rushStatus \<lparr>shellCommand = ''heft build'', persist = False\<rparr> NoProcess
     ([OnMessage (JObj [(''event'', JStr ''sync'')]), OnStdout ''compiling'', OnStderr ''deprecated'']
        @ OnExit 0 # []) = Returns (JStr ''SUCCESS WITH WARNINGS'')"
proof -
  let ?pre = "[OnMessage (JObj [(''event'', JStr ''sync'')]), OnStdout ''compiling'', OnStderr ''deprecated'']"
  have q: "\<forall>e\<in>set ?pre. quiet e"
    by (simp add: isAfterExecuteEventMessage_def hasEvent_def)
  have m: "OnStderr ''deprecated'' \<in> set ?pre" by simp
  have h: "\<forall>e\<in>set [OnStderr ''late'']. harmless e" by simp
  from stderr_then_success_is_warning [OF q m, of rushStatus
      "\<lparr>shellCommand = ''heft build'', persist = False\<rparr>" NoProcess "[OnStderr ''late'', OnExit 0]"]
  have a: "\<forall>mid c rest. [OnStderr ''late'', OnExit 0] = mid @ OnExit c # rest \<and> (\<forall>e\<in>set mid. harmless e) \<longrightarrow>
            executeAsync rushStatus \<lparr>shellCommand = ''heft build'', persist = False\<rparr> NoProcess
              (?pre @ OnMessage (afterExecute (rushStatus Success)) # [OnStderr ''late'', OnExit 0])
              = Returns (JStr (rushStatus SuccessWithWarning))" by blast
  have "executeAsync rushStatus \<lparr>shellCommand = ''heft build'', persist = False\<rparr> NoProcess
              (?pre @ OnMessage (afterExecute (rushStatus Success)) # [OnStderr ''late'', OnExit 0])
              = Returns (JStr (rushStatus SuccessWithWarning))"
    using a [rule_format, of "[OnStderr ''late'']" 0 "[]"] h by simp
  moreover from stderr_then_success_is_warning [OF q m, of rushStatus
      "\<lparr>shellCommand = ''heft build'', persist = False\<rparr>" NoProcess "[]"]
  have "executeAsync rushStatus \<lparr>shellCommand = ''heft build'', persist = False\<rparr> NoProcess
     (?pre @ OnExit 0 # []) = Returns (JStr (rushStatus SuccessWithWarning))" by blast
  ultimately show ?thesis by (simp add: rushStatus_def)
qed

text \<open>
  Claim C9. A message that is none of the recognized kinds should leave the handlers
  without effect, whatever value it is. The guards read \<open>message.event\<close> as soon as
  \<open>typeof message\<close> is \<open>'object'\<close>, which holds of \<open>null\<close>: on the message \<open>null\<close>
  the process listener throws a \<open>TypeError\<close>, and so does \<open>finishHandler\<close>.
\<close>

theorem null_message_throws:
  "processMessageHandler s JNull = Inl (TypeError ''Cannot read properties of null (reading 'event')'')
   \<and> finishHandler s JNull = Inl (TypeError ''Cannot read properties of null (reading 'event')'')"
  by (simp add: processMessageHandler_def finishHandler_def isRequestRunEventMessage_def
      isAfterExecuteEventMessage_def hasEvent_def quoted_def)

text \<open>Every other message that is not of a recognized kind is ignored by both handlers.\<close>

lemma unrecognized_message_ignored:
  assumes "message \<noteq> JNull"
    and "hasEvent ''requestRun'' message \<noteq> Inr True"
    and "hasEvent ''sync'' message \<noteq> Inr True"
    and "hasEvent ''after-execute'' message \<noteq> Inr True"
  shows "processMessageHandler s message = Inr s \<and> finishHandler s message = Inr s"
proof -
  from assms hasEvent_cases [of message] have
    "hasEvent ''requestRun'' message = Inr False" "hasEvent ''sync'' message = Inr False"
    "hasEvent ''after-execute'' message = Inr False"
    by (metis (full_types))+
  then show ?thesis
    by (simp add: processMessageHandler_def finishHandler_def isRequestRunEventMessage_def
        isSyncEventMessage_def isAfterExecuteEventMessage_def)
qed

section \<open>Properties of the cache id\<close>

lemma processLevel_new_mono:
  "processLevel stateOf deps level (states, processed, new) = Some (states', processed', new')
    \<Longrightarrow> set new \<subseteq> set new'"
proof (induction level arbitrary: states processed new)
  case Nil
  then show ?case by simp
next
  case (Cons p level)
  from Cons.prems obtain h where
    rest: "processLevel stateOf deps level
        (states @ [h], insert p processed, addDependencies (insert p processed) new (deps p))
        = Some (states', processed', new')"
    by (auto simp: Let_def split: option.splits if_splits)
  from Cons.IH [OF rest] show ?case
    by (auto simp: addDependencies_set)
qed

lemma processLevel_truthy:
  "processLevel stateOf deps level (states, processed, new) = Some (states', processed', new')
    \<Longrightarrow> \<forall>q\<in>set level. truthy (stateOf q)"
proof (induction level arbitrary: states processed new)
  case Nil
  then show ?case by simp
next
  case (Cons p level)
  from Cons.prems obtain h where h: "stateOf p = Some h" "h \<noteq> []"
    and rest: "processLevel stateOf deps level
        (states @ [h], insert p processed, addDependencies (insert p processed) new (deps p))
        = Some (states', processed', new')"
    by (auto simp: Let_def split: option.splits if_splits)
  from Cons.IH [OF rest] h show ?case by simp
qed

lemma processLevel_deps:
  "processLevel stateOf deps level (states, processed, new) = Some (states', processed', new')
    \<Longrightarrow> \<forall>q\<in>set level. set (deps q) \<subseteq> processed' \<union> set new'"
proof (induction level arbitrary: states processed new)
  case Nil
  then show ?case by simp
next
  case (Cons p level)
  from Cons.prems obtain h where
    rest: "processLevel stateOf deps level
        (states @ [h], insert p processed, addDependencies (insert p processed) new (deps p))
        = Some (states', processed', new')"
    by (auto simp: Let_def split: option.splits if_splits)
  have "set (deps p) \<subseteq> insert p processed \<union> set (addDependencies (insert p processed) new (deps p))"
    by (auto simp: addDependencies_set)
  moreover have "insert p processed \<subseteq> processed'"
    using processLevel_processed [OF rest] by auto
  moreover have "set (addDependencies (insert p processed) new (deps p)) \<subseteq> set new'"
    using processLevel_new_mono [OF rest] .
  ultimately have "set (deps p) \<subseteq> processed' \<union> set new'" by blast
  with Cons.IH [OF rest] show ?case by simp
qed

lemma closed_reachable:
  assumes "(q, p) \<in> (depRel deps)\<^sup>*" "q \<in> S" "\<forall>x\<in>S. set (deps x) \<subseteq> S"
  shows "p \<in> S"
  using assms by (induction rule: rtrancl_induct) (auto simp: depRel_def)

lemma collect_Some_truthy:
  "collectProjectStates stateOf deps level states processed = Some r
    \<Longrightarrow> \<forall>q\<in>processed. truthy (stateOf q) \<and> set (deps q) \<subseteq> processed \<union> set level
    \<Longrightarrow> q \<in> processed \<union> set level \<Longrightarrow> (q, p) \<in> (depRel deps)\<^sup>*
    \<Longrightarrow> truthy (stateOf p)"
proof (induction stateOf deps level states processed arbitrary: q rule: collectProjectStates.induct)
  case (1 stateOf deps level states processed)
  show ?case
  proof (cases "level = []")
    case True
    with "1.prems" have "p \<in> processed"
      using closed_reachable [of q p deps processed] by auto
    with "1.prems" show ?thesis by blast
  next
    case False
    with "1.prems"(1) obtain states' processed' new' where
      run: "processLevel stateOf deps level (states, processed, []) = Some (states', processed', new')"
      and rec: "collectProjectStates stateOf deps new' states' processed' = Some r"
      by (subst (asm) collectProjectStates.simps) (auto split: option.splits)
    have p': "processed' = processed \<union> set level"
      using processLevel_processed [OF run] .
    have inv: "\<forall>x\<in>processed'. truthy (stateOf x) \<and> set (deps x) \<subseteq> processed' \<union> set new'"
      using "1.prems"(2) processLevel_truthy [OF run] processLevel_deps [OF run] p' by blast
    have "q \<in> processed' \<union> set new'" using "1.prems"(3) p' by blast
    from "1.IH" [OF False run refl refl rec inv this "1.prems"(4)] show ?thesis .
  qed
qed

lemma collect_absent:
  assumes "p \<in> closure deps root" "\<not> truthy (stateOf p)"
  shows "collectProjectStates stateOf deps [root] [] {} = None"
proof (rule ccontr)
  assume "collectProjectStates stateOf deps [root] [] {} \<noteq> None"
  then obtain r where "collectProjectStates stateOf deps [root] [] {} = Some r" by auto
  from collect_Some_truthy [OF this, of root p] assms show False
    by (simp add: closure_def)
qed

lemma getCacheId_absent:
  assumes "p \<in> closure (dependencyProjects options) (project options)"
    and "\<not> truthy (stateOfProject options p)"
  shows "getCacheId options = Inr None"
  using collect_absent [where stateOf="stateOfProject options", OF assms]
  by (simp add: getCacheId_def)

lemma getCacheId_Some:
  assumes "collectProjectStates (stateOfProject options) (dependencyProjects options)
             [project options] [] {} = Some projectStates"
    and "projectOutputFolderNames options = Some names"
  shows "getCacheId options
     = Inr (Some (getCacheEntryId options (packageName options (project options))
                    (sha1Hex options (hashInput options names (sort projectStates)))))"
  using assms by (simp add: getCacheId_def)

text \<open>
  Claim C3. If a project of the transitive dependency closure of the operation's project
  (the project itself included) has no state (\<open>undefined\<close>, or the empty string, which
  the source treats alike), then \<open>_getCacheId\<close> returns \<open>undefined\<close> without an
  error, the \<open>ProjectBuildCache\<close> is constructed with that absent id, and both
  \<open>tryRestoreFromCacheAsync\<close> and \<open>trySetCacheEntryAsync\<close> return \<open>false\<close>: they
  write one warning and touch nothing else.
\<close>

theorem unknown_state_disables_cache:
  assumes "p \<in> closure (dependencyProjects options) (project options)"
    and "\<not> truthy (stateOfProject options p)"
  shows "getCacheId options = Inr None
       \<and> (\<exists>c. newProjectBuildCache options folder cloud entryPath = Inr c
              \<and> tryRestoreFromCacheAsync c env w
                  = (Inr False, terminalWrite SevWarning ''Unable to get cache ID. Ensure Git is installed.'' w)
              \<and> trySetCacheEntryAsync c env tree w
                  = (Inr False, terminalWrite SevWarning ''Unable to get cache ID. Ensure Git is installed.'' w))"
  using getCacheId_absent [OF assms]
  by (simp add: newProjectBuildCache_def tryRestoreFromCacheAsync_def trySetCacheEntryAsync_def)

lemma sample_closure: "ProjD \<in> closure sampleDepsOnUnknown ProjA"
proof -
  have "(ProjA, ProjB) \<in> depRel sampleDepsOnUnknown" "(ProjB, ProjD) \<in> depRel sampleDepsOnUnknown"
    by (simp_all add: depRel_def)
  then have "(ProjA, ProjD) \<in> (depRel sampleDepsOnUnknown)\<^sup>*" by (meson rtrancl.simps)
  then show ?thesis by (simp add: closure_def)
qed

text \<open>\<open>ProjA\<close> depends on \<open>ProjB\<close>, which depends on \<open>ProjD\<close>, whose state is
  unknown.\<close>

theorem unknown_state_disables_cache_witness:
  "\<forall>sha json entryId entryPath env tree w.
     getCacheId (sampleOptions sampleDepsOnUnknown sampleStates sha json entryId) = Inr None
     \<and> (\<exists>c. newProjectBuildCache (sampleOptions sampleDepsOnUnknown sampleStates sha json entryId)
               ''/repo/a'' None entryPath = Inr c
           \<and> tryRestoreFromCacheAsync c env w
              = (Inr False, terminalWrite SevWarning ''Unable to get cache ID. Ensure Git is installed.'' w)
           \<and> trySetCacheEntryAsync c env tree w
              = (Inr False, terminalWrite SevWarning ''Unable to get cache ID. Ensure Git is installed.'' w))"
proof (intro allI)
  fix sha json entryId entryPath env tree w
  have a: "ProjD \<in> closure (dependencyProjects (sampleOptions sampleDepsOnUnknown sampleStates sha json entryId))
      (project (sampleOptions sampleDepsOnUnknown sampleStates sha json entryId))"
    using sample_closure by (simp add: sampleOptions_def)
  have b: "\<not> truthy (stateOfProject (sampleOptions sampleDepsOnUnknown sampleStates sha json entryId) ProjD)"
    by (simp add: stateOfProject_def sampleOptions_def sampleStates_def)
  from unknown_state_disables_cache [OF a b]
  show "getCacheId (sampleOptions sampleDepsOnUnknown sampleStates sha json entryId) = Inr None
     \<and> (\<exists>c. newProjectBuildCache (sampleOptions sampleDepsOnUnknown sampleStates sha json entryId)
               ''/repo/a'' None entryPath = Inr c
           \<and> tryRestoreFromCacheAsync c env w
              = (Inr False, terminalWrite SevWarning ''Unable to get cache ID. Ensure Git is installed.'' w)
           \<and> trySetCacheEntryAsync c env tree w
              = (Inr False, terminalWrite SevWarning ''Unable to get cache ID. Ensure Git is installed.'' w))"
    by blast
qed

lemma sample_collect:
  "collectProjectStates (stateOfProject (sampleOptions sampleDeps sampleStates sha json entryId))
     (dependencyProjects (sampleOptions sampleDeps sampleStates sha json entryId))
     [project (sampleOptions sampleDeps sampleStates sha json entryId)] [] {}
     = Some [''1f'', ''2e'', ''3d'', ''3d'']"
  "collectProjectStates (stateOfProject (sampleOptions sampleDepsReordered sampleStates sha json entryId))
     (dependencyProjects (sampleOptions sampleDepsReordered sampleStates sha json entryId))
     [project (sampleOptions sampleDepsReordered sampleStates sha json entryId)] [] {}
     = Some [''1f'', ''3d'', ''2e'']"
  "collectProjectStates (stateOfProject (sampleOptions sampleDepsReordered sampleStatesSwapped sha json entryId))
     (dependencyProjects (sampleOptions sampleDepsReordered sampleStatesSwapped sha json entryId))
     [project (sampleOptions sampleDepsReordered sampleStatesSwapped sha json entryId)] [] {}
     = Some [''2e'', ''3d'', ''1f'']"
  by (simp_all add: collectProjectStates.simps stateOfProject_def sampleOptions_def sampleStates_def
      sampleStatesSwapped_def setAdd_def)

lemma sample_names:
  "projectOutputFolderNames (sampleOptions deps states sha json entryId) = Some [''lib'', ''dist'']"
  by (simp add: sampleOptions_def)

lemma sample_sorted:
  "sort [''1f'', ''2e'', ''3d'', ''3d''] = [''1f'', ''2e'', ''3d'', ''3d'']"
  "sort [''1f'', ''3d'', ''2e''] = [''1f'', ''2e'', ''3d'']"
  "sort [''2e'', ''3d'', ''1f''] = [''1f'', ''2e'', ''3d'']"
  by simp_all

text \<open>
  Claim C2. Every project of the closure should contribute one fingerprint to the list
  that is sorted and hashed. In the first sample graph \<open>ProjC\<close> is a dependency of
  \<open>ProjA\<close> and of \<open>ProjB\<close>. It is queued for the next level while \<open>ProjB\<close> is
  processed, because it is itself still waiting in the current level; it is then
  processed in both levels, and its state \<open>3d\<close> is hashed twice. With the dependencies
  of \<open>ProjA\<close> declared in the other order it is hashed once, so the two declarations
  of the same graph are given different data to hash.
\<close>

theorem shared_dependency_pushed_twice:
  "getCacheId (sampleOptions sampleDeps sampleStates sha json entryId)
     = Inr (Some (entryId ''a'' (sha (json [''lib'', ''dist''] @ ''|build|1f|2e|3d|3d|''))))
   \<and> getCacheId (sampleOptions sampleDepsReordered sampleStates sha json entryId)
     = Inr (Some (entryId ''a'' (sha (json [''lib'', ''dist''] @ ''|build|1f|2e|3d|''))))"
proof
  show "getCacheId (sampleOptions sampleDeps sampleStates sha json entryId)
     = Inr (Some (entryId ''a'' (sha (json [''lib'', ''dist''] @ ''|build|1f|2e|3d|3d|''))))"
    unfolding getCacheId_Some [OF sample_collect(1) sample_names] sample_sorted
    by (simp add: sampleOptions_def hashInput_def)
  show "getCacheId (sampleOptions sampleDepsReordered sampleStates sha json entryId)
     = Inr (Some (entryId ''a'' (sha (json [''lib'', ''dist''] @ ''|build|1f|2e|3d|''))))"
    unfolding getCacheId_Some [OF sample_collect(2) sample_names] sample_sorted
    by (simp add: sampleOptions_def hashInput_def)
qed







section \<open>Properties of the build cache\<close>

subsection \<open>Restoring\<close>


lemma extractEntries_apply:
  "extractEntries entries fs path = (case map_of (rev entries) path of None \<Rightarrow> fs path | Some content \<Rightarrow> Some content)"
proof (induction entries arbitrary: fs)
  case Nil
  then show ?case by (simp add: extractEntries_def)
next
  case (Cons e entries)
  obtain p c where e: "e = (p, c)" by (cases e)
  have "extractEntries (e # entries) fs path = extractEntries entries (fs(p \<mapsto> c)) path"
    by (simp add: extractEntries_def e)
  also have "\<dots> = (case map_of (rev entries) path of None \<Rightarrow> (fs(p \<mapsto> c)) path | Some content \<Rightarrow> Some content)"
    by (rule Cons.IH)
  finally show ?case
    by (auto simp: e map_add_def split: option.splits)
qed

lemma extractEntries_outside:
  "path \<notin> fst ` set entries \<Longrightarrow> extractEntries (take k entries) fs path = fs path"
proof -
  assume "path \<notin> fst ` set entries"
  then have "path \<notin> fst ` set (rev (take k entries))"
    using set_take_subset [of k entries] by auto
  then have "map_of (rev (take k entries)) path = None"
    by (simp add: map_of_eq_None_iff)
  then show ?thesis by (simp add: extractEntries_apply)
qed

lemma extractEntries_after_partial:
  "extractEntries entries (extractEntries (take k entries) fs) = extractEntries entries fs"
proof
  fix path
  show "extractEntries entries (extractEntries (take k entries) fs) path = extractEntries entries fs path"
  proof (cases "map_of (rev entries) path")
    case None
    then have "path \<notin> fst ` set entries" by (simp add: map_of_eq_None_iff)
    from extractEntries_outside [OF this] None show ?thesis
      by (simp add: extractEntries_apply [of entries])
  next
    case (Some content)
    then show ?thesis by (simp add: extractEntries_apply [of entries])
  qed
qed

lemma restore_twice_files:
  "extractEntries entries (purge names (extractEntries entries (purge names fs)))
     = extractEntries entries (purge names fs)"
  by (rule ext) (auto simp: extractEntries_apply purge_def split: option.splits)

lemma deleteFolders_eq:
  "deleteFolders env folder names w =
     (\<exists>n\<in>set names. deleteFolderFails env n,
      w\<lparr>calls := calls w @ map (\<lambda>n. DeleteFolder (folder @ ''/'' @ n)) names,
        projectFiles := purge (filter (\<lambda>n. \<not> deleteFolderFails env n) names) (projectFiles w)\<rparr>)"
proof (induction names arbitrary: w)
  case Nil
  then show ?case by (simp add: purge_def)
next
  case (Cons n names)
  have p: "purge (filter (\<lambda>n. \<not> deleteFolderFails env n) names) (deleteFolder n fs)
      = purge (n # filter (\<lambda>n. \<not> deleteFolderFails env n) names) fs" for fs
    by (auto simp: purge_def deleteFolder_def fun_eq_iff)
  show ?case
    by (auto simp: Cons.IH Let_def recordCall_def p)
qed

lemma filter_no_failure: "\<not> (\<exists>n\<in>set names. P n) \<Longrightarrow> filter (\<lambda>n. \<not> P n) names = names"
  by (induction names) auto

lemma restoreFromEntry_purge_failed:
  assumes "\<exists>n\<in>set (outputFolderNames c). deleteFolderFails env n"
  shows "\<exists>w'. restoreFromEntry c env cid lp buf upd w1 = (Inl (JsError ''deleteFolderAsync failed''), w')
            \<and> calls w' = calls w1 @ purgeCalls c
            \<and> localCache w' = localCache w1 \<and> cloudCache w' = cloudCache w1"
  using assms
  by (simp add: restoreFromEntry_def deleteFolders_eq purgeCalls_def terminalWrite_def)

lemma restoreFromEntry_outcome:
  assumes inv: "truthy lp \<longrightarrow> localCache w1 cid = Some blob" "buf = None \<or> buf = Some blob"
      "truthy lp \<or> buf \<noteq> None"
    and ok: "\<not> (\<exists>n\<in>set (outputFolderNames c). deleteFolderFails env n)"
    and run: "restoreFromEntry c env cid lp buf upd w1 = (res, w')"
  shows "localCache w' = localCache w1 \<and> cloudCache w' = cloudCache w1
       \<and> (\<exists>e. calls w' = calls w1 @ purgeCalls c @ e \<and> e \<noteq> [] \<and> (\<forall>x\<in>set e. isExtraction x))
       \<and> (res = Inr True \<longrightarrow>
            projectFiles w' = extractEntries blob (purge (outputFolderNames c) (projectFiles w1)))
       \<and> (\<forall>path. (\<exists>n\<in>set (outputFolderNames c). inFolder n path) \<and> path \<notin> fst ` set blob
            \<longrightarrow> projectFiles w' path = None)"
proof -
  have out4: "purge (outputFolderNames c) fs path = None"
    if "n \<in> set (outputFolderNames c)" "inFolder n path" for path fs n
    using that by (auto simp: purge_def)
  have out1: "extractEntries (take k blob) (purge (outputFolderNames c) fs) path = None"
    if "n \<in> set (outputFolderNames c)" "inFolder n path" "path \<notin> fst ` set blob" for path k fs n
    using that by (simp add: extractEntries_outside out4)
  have out: "extractEntries (take k blob) (extractEntries (take j blob) (purge (outputFolderNames c) fs)) path = None"
    if "n \<in> set (outputFolderNames c)" "inFolder n path" "path \<notin> fst ` set blob" for path k j fs n
    using that by (simp add: extractEntries_outside out4)
  have out2: "extractEntries blob (purge (outputFolderNames c) fs) path = None"
    if "n \<in> set (outputFolderNames c)" "inFolder n path" "path \<notin> fst ` set blob" for path fs n
    using out1 [where k="length blob", OF that] by simp
  have out3: "extractEntries blob (extractEntries (take j blob) (purge (outputFolderNames c) fs)) path = None"
    if "n \<in> set (outputFolderNames c)" "inFolder n path" "path \<notin> fst ` set blob" for path j fs n
    using out [where k="length blob", OF that] by simp
  show ?thesis
  proof (cases "tarAvailable env \<and> truthy lp")
    case True
    with inv have lc: "localCache w1 cid = Some blob" by simp
    show ?thesis
    proof (cases "tarUntarExitCode env = 0")
      case z: True
      with True lc ok run show ?thesis
        by (auto simp: restoreFromEntry_def deleteFolders_eq filter_no_failure purgeCalls_def
            terminalWrite_def untarWithUtility_def recordCall_def Let_def reportRestore_def out2)
    next
      case nz: False
      with True lc ok run inv show ?thesis
        by (auto simp: restoreFromEntry_def deleteFolders_eq filter_no_failure purgeCalls_def
            terminalWrite_def untarWithUtility_def recordCall_def Let_def reportRestore_def
            restoreInMemory_def readFileToBuffer_def untarInMemory_def
            extractEntries_after_partial out out1 out2 out3 out4
            split: if_splits)
    qed
  next
    case False
    with ok run inv show ?thesis
      by (auto simp: restoreFromEntry_def deleteFolders_eq filter_no_failure purgeCalls_def
          terminalWrite_def recordCall_def Let_def reportRestore_def
          restoreInMemory_def readFileToBuffer_def untarInMemory_def
          out out1 out2 out3 out4
          split: if_splits option.splits)
  qed
qed


lemma queryCaches_outcome:
  assumes "queryCaches c env cid w = ((lp, buf, upd), w1)"
  shows "calls w1 = calls w @ queryCalls c w cid"
    and "projectFiles w1 = projectFiles w"
    and "cloudCache w1 = cloudCache w"
    and "(\<not> truthy lp \<and> buf = None) \<longleftrightarrow> foundEntry c w cid = None"
    and "foundEntry c w cid = Some blob \<Longrightarrow>
           (truthy lp \<longrightarrow> localCache w1 cid = Some blob) \<and> (buf = None \<or> buf = Some blob)
           \<and> (truthy lp \<or> buf \<noteq> None) \<and> foundEntry c w1 cid = Some blob"
    and "upd = Some False \<longleftrightarrow>
           \<not> localHit c w cid \<and> cloudBuildCacheProvider c \<noteq> None \<and> cloudCache w cid \<noteq> None
           \<and> localSetFails env"
    and "\<not> localHit c w cid \<and> cloudBuildCacheProvider c \<noteq> None \<and> cloudCache w cid = Some blob
           \<and> \<not> localSetFails env \<Longrightarrow> localCache w1 cid = Some blob"
    and "localSetFails env \<Longrightarrow> localCache w1 = localCache w"
  using assms
  by (auto simp: queryCaches_def queryCalls_def foundEntry_def localHit_def Let_def recordCall_def
      terminalWrite_def split: if_splits option.splits) metis+


lemma tryRestore_known:
  "cacheId c = Some cid \<Longrightarrow> cid \<noteq> [] \<Longrightarrow>
     tryRestoreFromCacheAsync c env w = restoreWithCacheId c env cid w"
  by (simp add: tryRestoreFromCacheAsync_def)

lemma foundEntry_cong:
  "localCache w' = localCache w \<Longrightarrow> cloudCache w' = cloudCache w \<Longrightarrow> foundEntry c w' cid = foundEntry c w cid"
  by (simp add: foundEntry_def localHit_def)

lemma restore_miss:
  assumes "foundEntry c w cid = None" "restoreWithCacheId c env cid w = (res, w')"
  shows "res = Inr False \<and> calls w' = calls w @ queryCalls c w cid \<and> projectFiles w' = projectFiles w"
proof -
  obtain lp buf upd w1 where q: "queryCaches c env cid w = ((lp, buf, upd), w1)"
    by (metis prod_cases3 surj_pair)
  from queryCaches_outcome(1,2,4) [OF q] assms show ?thesis
    by (auto simp: restoreWithCacheId_def q terminalWrite_def)
qed

lemma restore_hit:
  assumes found: "foundEntry c w cid = Some blob" and run: "restoreWithCacheId c env cid w = (res, w')"
  shows "\<exists>e. calls w' = calls w @ queryCalls c w cid @ purgeCalls c @ e \<and> (\<forall>x\<in>set e. isExtraction x)
           \<and> (e = [] \<longleftrightarrow> (\<exists>n\<in>set (outputFolderNames c). deleteFolderFails env n))"
    and "foundEntry c w' cid = Some blob"
    and "res = Inr True \<Longrightarrow> projectFiles w' = extractEntries blob (purge (outputFolderNames c) (projectFiles w))"
    and "\<not> (\<exists>n\<in>set (outputFolderNames c). deleteFolderFails env n) \<Longrightarrow>
           (\<exists>n\<in>set (outputFolderNames c). inFolder n path) \<Longrightarrow> path \<notin> fst ` set blob
           \<Longrightarrow> projectFiles w' path = None"
    and "(\<exists>n\<in>set (outputFolderNames c). deleteFolderFails env n) \<Longrightarrow> res = Inl (JsError ''deleteFolderAsync failed'')"
proof -
  obtain lp buf upd w1 where q: "queryCaches c env cid w = ((lp, buf, upd), w1)"
    by (metis prod_cases3 surj_pair)
  note qo = queryCaches_outcome [OF q]
  from qo(4) found have hit: "\<not> (\<not> truthy lp \<and> buf = None)" by simp
  from qo(5) [OF found] have inv: "truthy lp \<longrightarrow> localCache w1 cid = Some blob"
    "buf = None \<or> buf = Some blob" "truthy lp \<or> buf \<noteq> None" "foundEntry c w1 cid = Some blob"
    by simp_all
  from run hit have r: "restoreFromEntry c env cid lp buf upd w1 = (res, w')"
    by (auto simp: restoreWithCacheId_def q)
  show "\<exists>e. calls w' = calls w @ queryCalls c w cid @ purgeCalls c @ e \<and> (\<forall>x\<in>set e. isExtraction x)
           \<and> (e = [] \<longleftrightarrow> (\<exists>n\<in>set (outputFolderNames c). deleteFolderFails env n))"
  proof (cases "\<exists>n\<in>set (outputFolderNames c). deleteFolderFails env n")
    case True
    from restoreFromEntry_purge_failed [OF True, of cid lp buf upd w1] r qo(1) True show ?thesis by auto
  next
    case False
    from restoreFromEntry_outcome [OF inv(1,2,3) False r] qo(1) False show ?thesis by auto
  qed
  show "foundEntry c w' cid = Some blob"
  proof (cases "\<exists>n\<in>set (outputFolderNames c). deleteFolderFails env n")
    case True
    from restoreFromEntry_purge_failed [OF True, of cid lp buf upd w1] r inv(4) foundEntry_cong [of w' w1 c cid]
    show ?thesis by auto
  next
    case False
    from restoreFromEntry_outcome [OF inv(1,2,3) False r] inv(4) foundEntry_cong [of w' w1 c cid]
    show ?thesis by auto
  qed
  show "res = Inl (JsError ''deleteFolderAsync failed'')"
    if "\<exists>n\<in>set (outputFolderNames c). deleteFolderFails env n"
    using restoreFromEntry_purge_failed [OF that, of cid lp buf upd w1] r by auto
  show "projectFiles w' = extractEntries blob (purge (outputFolderNames c) (projectFiles w))"
    if t: "res = Inr True"
  proof (cases "\<exists>n\<in>set (outputFolderNames c). deleteFolderFails env n")
    case True
    from restoreFromEntry_purge_failed [OF True, of cid lp buf upd w1] r t show ?thesis by auto
  next
    case False
    from restoreFromEntry_outcome [OF inv(1,2,3) False r] qo(2) t show ?thesis by simp
  qed
  show "projectFiles w' path = None"
    if "\<not> (\<exists>n\<in>set (outputFolderNames c). deleteFolderFails env n)"
      "\<exists>n\<in>set (outputFolderNames c). inFolder n path" "path \<notin> fst ` set blob"
    using restoreFromEntry_outcome [OF inv(1,2,3) that(1) r] that(2,3) by blast
qed

lemma queryCalls_members:
  "CloudTryGet cid \<in> set (queryCalls c w cid) \<longleftrightarrow> \<not> localHit c w cid \<and> cloudBuildCacheProvider c \<noteq> None"
  "LocalTrySet cid \<in> set (queryCalls c w cid) \<longleftrightarrow>
     \<not> localHit c w cid \<and> cloudBuildCacheProvider c \<noteq> None \<and> cloudCache w cid \<noteq> None"
  by (auto simp: queryCalls_def)

lemma purge_extraction_not_query:
  "x \<in> set (purgeCalls c) \<or> isExtraction x \<Longrightarrow> x \<noteq> CloudTryGet cid \<and> x \<noteq> LocalTrySet cid"
  by (auto simp: purgeCalls_def)

lemma restore_calls:
  assumes "restoreWithCacheId c env cid w = (res, w')"
  shows "\<exists>tail. calls w' = calls w @ queryCalls c w cid @ tail
           \<and> (\<forall>x\<in>set tail. x \<in> set (purgeCalls c) \<or> isExtraction x)"
proof (cases "foundEntry c w cid")
  case None
  from restore_miss [OF None assms] show ?thesis by simp
next
  case (Some blob)
  from restore_hit(1) [OF Some assms] obtain e where
    "calls w' = calls w @ queryCalls c w cid @ purgeCalls c @ e" "\<forall>x\<in>set e. isExtraction x" by blast
  then show ?thesis by (intro exI [of _ "purgeCalls c @ e"]) auto
qed

lemma backfill_failure:
  assumes "\<not> localHit c w cid" "cloudBuildCacheProvider c \<noteq> None" "cloudCache w cid = Some blob"
    and "localSetFails env" "\<not> (\<exists>n\<in>set (outputFolderNames c). deleteFolderFails env n)"
    and "restoreWithCacheId c env cid w = (res, w')"
  shows "res = Inr (\<not> jsUntarFails env) \<and> JsTarExtract \<in> set (calls w')
       \<and> backfillWarning \<in> set (terminalOutput w')
       \<and> (\<forall>path. TarUntar path \<notin> set (calls w') - set (calls w))"
  using assms
  by (auto simp: restoreWithCacheId_def queryCaches_def localHit_def Let_def recordCall_def
      terminalWrite_def restoreFromEntry_def deleteFolders_eq filter_no_failure
      restoreInMemory_def untarInMemory_def reportRestore_def backfillWarning_def
      split: if_splits)


lemma backfill_success:
  assumes "\<not> localHit c w cid" "cloudBuildCacheProvider c \<noteq> None" "cloudCache w cid = Some blob"
    and "\<not> localSetFails env"
    and "restoreWithCacheId c env cid w = (res, w')"
  shows "localCache w' cid = Some blob"
proof -
  obtain lp buf upd w1 where q: "queryCaches c env cid w = ((lp, buf, upd), w1)"
    by (metis prod_cases3 surj_pair)
  have found: "foundEntry c w cid = Some blob" using assms(1-3) by (simp add: foundEntry_def)
  note qo = queryCaches_outcome [OF q]
  from qo(7) assms have l1: "localCache w1 cid = Some blob" by blast
  from qo(4) found have hit: "\<not> (\<not> truthy lp \<and> buf = None)" by simp
  from qo(5) [OF found] have inv: "truthy lp \<longrightarrow> localCache w1 cid = Some blob"
    "buf = None \<or> buf = Some blob" "truthy lp \<or> buf \<noteq> None"
    by simp_all
  from assms(5) hit have r: "restoreFromEntry c env cid lp buf upd w1 = (res, w')"
    by (auto simp: restoreWithCacheId_def q)
  show ?thesis
  proof (cases "\<exists>n\<in>set (outputFolderNames c). deleteFolderFails env n")
    case True
    from restoreFromEntry_purge_failed [OF True, of cid lp buf upd w1] r l1 show ?thesis by auto
  next
    case False
    from restoreFromEntry_outcome [OF inv False r] l1 show ?thesis by simp
  qed
qed

text \<open>
  Claim C4. A restore with a known cache id asks the local provider first. It asks the
  cloud provider exactly when the local answer is absent and a cloud provider is
  configured, and it writes to the local cache exactly when the cloud then has an entry.
  When that write succeeds the local cache holds the entry afterwards. When it fails
  (and the purge does not), the restore extracts from the buffer in memory: its result
  is the success of that extraction alone, the files of a successful one are those of
  the archive over the purged folders, and the failure is reported by a warning.
\<close>

theorem restore_queries_local_then_cloud:
  assumes "cacheId c = Some cid" "cid \<noteq> []" "tryRestoreFromCacheAsync c env w = (res, w')"
  shows "(\<exists>rest. calls w' = calls w @ LocalTryGet cid # rest
            \<and> (CloudTryGet cid \<in> set rest \<longleftrightarrow> \<not> localHit c w cid \<and> cloudBuildCacheProvider c \<noteq> None)
            \<and> (LocalTrySet cid \<in> set rest \<longleftrightarrow>
                 \<not> localHit c w cid \<and> cloudBuildCacheProvider c \<noteq> None \<and> cloudCache w cid \<noteq> None))
       \<and> (\<forall>blob. \<not> localHit c w cid \<and> cloudBuildCacheProvider c \<noteq> None \<and> cloudCache w cid = Some blob
             \<longrightarrow> (\<not> localSetFails env \<longrightarrow> localCache w' cid = Some blob)
               \<and> (localSetFails env \<and> \<not> (\<exists>n\<in>set (outputFolderNames c). deleteFolderFails env n) \<longrightarrow>
                     res = Inr (\<not> jsUntarFails env) \<and> JsTarExtract \<in> set (calls w')
                     \<and> backfillWarning \<in> set (terminalOutput w')
                     \<and> (\<not> jsUntarFails env \<longrightarrow>
                          projectFiles w' = extractEntries blob (purge (outputFolderNames c) (projectFiles w)))))"
proof -
  from assms have run: "restoreWithCacheId c env cid w = (res, w')"
    by (simp add: tryRestore_known)
  from restore_calls [OF run] obtain tail where
    t: "calls w' = calls w @ queryCalls c w cid @ tail"
      "\<forall>x\<in>set tail. x \<in> set (purgeCalls c) \<or> isExtraction x" by blast
  define rest where "rest = tl (queryCalls c w cid) @ tail"
  have q: "queryCalls c w cid = LocalTryGet cid # tl (queryCalls c w cid)"
    by (simp add: queryCalls_def)
  have c1: "calls w' = calls w @ LocalTryGet cid # rest"
    using t(1) q by (metis append_Cons rest_def)
  have nt: "CloudTryGet cid \<notin> set tail" "LocalTrySet cid \<notin> set tail"
    using t(2) purge_extraction_not_query by blast+
  have "CloudTryGet cid \<in> set rest \<longleftrightarrow> CloudTryGet cid \<in> set (queryCalls c w cid)"
    using nt q by (metis UnE UnI1 rest_def set_ConsD set_append list.set_intros(2) collaborator_call.distinct(3))
  then have c2: "CloudTryGet cid \<in> set rest \<longleftrightarrow> \<not> localHit c w cid \<and> cloudBuildCacheProvider c \<noteq> None"
    by (simp add: queryCalls_members)
  have "LocalTrySet cid \<in> set rest \<longleftrightarrow> LocalTrySet cid \<in> set (queryCalls c w cid)"
    using nt q by (metis UnE UnI1 rest_def set_ConsD set_append list.set_intros(2) collaborator_call.distinct(1))
  then have c3: "LocalTrySet cid \<in> set rest \<longleftrightarrow>
      \<not> localHit c w cid \<and> cloudBuildCacheProvider c \<noteq> None \<and> cloudCache w cid \<noteq> None"
    by (simp add: queryCalls_members)
  have c4: "(\<not> localSetFails env \<longrightarrow> localCache w' cid = Some blob)
               \<and> (localSetFails env \<and> \<not> (\<exists>n\<in>set (outputFolderNames c). deleteFolderFails env n) \<longrightarrow>
                     res = Inr (\<not> jsUntarFails env) \<and> JsTarExtract \<in> set (calls w')
                     \<and> backfillWarning \<in> set (terminalOutput w')
                     \<and> (\<not> jsUntarFails env \<longrightarrow>
                          projectFiles w' = extractEntries blob (purge (outputFolderNames c) (projectFiles w))))"
    if h: "\<not> localHit c w cid \<and> cloudBuildCacheProvider c \<noteq> None \<and> cloudCache w cid = Some blob" for blob
  proof -
    from h have found: "foundEntry c w cid = Some blob" by (simp add: foundEntry_def)
    from h have h1: "\<not> localHit c w cid" and h2: "cloudBuildCacheProvider c \<noteq> None"
      and h3: "cloudCache w cid = Some blob" by simp_all
    show ?thesis
      using backfill_success [OF h1 h2 h3 _ run] backfill_failure [OF h1 h2 h3 _ _ run]
        restore_hit(3) [OF found run]
      by auto
  qed
  from c1 c2 c3 c4 show ?thesis by blast
qed

lemma sample_facts:
  "cacheId sampleCache = Some ''k1''"
  "\<not> localHit sampleCache sampleWorld ''k1''"
  "cloudBuildCacheProvider sampleCache \<noteq> None"
  "cloudCache sampleWorld ''k1'' = Some sampleArchive"
  "outputFolderNames sampleCache = [''lib'']"
  "foundEntry sampleCache sampleWorld ''k1'' = Some sampleArchive"
  by (simp_all add: sampleCache_def sampleWorld_def localHit_def foundEntry_def)


text \<open>The sample project misses locally and hits in the cloud: with a local write
  that fails the restore succeeds from memory and warns; with one that succeeds the
  local cache holds the entry afterwards.\<close>

theorem restore_queries_local_then_cloud_witness:
  "fst (tryRestoreFromCacheAsync sampleCache (sampleEnv\<lparr>localSetFails := True\<rparr>) sampleWorld) = Inr True
   \<and> backfillWarning \<in> set (terminalOutput
        (snd (tryRestoreFromCacheAsync sampleCache (sampleEnv\<lparr>localSetFails := True\<rparr>) sampleWorld)))
   \<and> JsTarExtract \<in> set (calls
        (snd (tryRestoreFromCacheAsync sampleCache (sampleEnv\<lparr>localSetFails := True\<rparr>) sampleWorld)))
   \<and> localCache (snd (tryRestoreFromCacheAsync sampleCache sampleEnv sampleWorld)) ''k1'' = Some sampleArchive"
proof -
  let ?env = "sampleEnv\<lparr>localSetFails := True\<rparr>"
  have ne: "''k1'' \<noteq> []" by simp
  have e1: "localSetFails ?env \<and> \<not> (\<exists>n\<in>set (outputFolderNames sampleCache). deleteFolderFails ?env n)"
    "\<not> jsUntarFails ?env" "\<not> localSetFails sampleEnv"
    by (simp_all add: sampleEnv_def)
  from restore_queries_local_then_cloud [OF sample_facts(1) ne surjective_pairing, of ?env sampleWorld]
    sample_facts(2,3,4) e1(1,2)
  have a: "fst (tryRestoreFromCacheAsync sampleCache ?env sampleWorld) = Inr True
     \<and> JsTarExtract \<in> set (calls (snd (tryRestoreFromCacheAsync sampleCache ?env sampleWorld)))
     \<and> backfillWarning \<in> set (terminalOutput (snd (tryRestoreFromCacheAsync sampleCache ?env sampleWorld)))"
    by auto
  from restore_queries_local_then_cloud [OF sample_facts(1) ne surjective_pairing, of sampleEnv sampleWorld]
    sample_facts(2,3,4) e1(3)
  have "localCache (snd (tryRestoreFromCacheAsync sampleCache sampleEnv sampleWorld)) ''k1'' = Some sampleArchive"
    by auto
  with a show ?thesis by blast
qed


text \<open>
  Claim C7. When a restore with a known cache id finds an entry, its calls are the
  queries, then one deletion for every declared output folder, then extraction calls
  only. If it completes (with either result), no path inside an output folder that is
  not a member of the archive has a file any more. If it succeeds, the files are those
  of the archive over the purged folders, and any further successful restore leaves
  them as they are.
\<close>

theorem restore_purges_before_extracting:
  assumes "cacheId c = Some cid" "cid \<noteq> []" "foundEntry c w cid = Some blob"
    and "tryRestoreFromCacheAsync c env w = (res, w')"
  shows "(\<exists>e. calls w' = calls w @ queryCalls c w cid @ purgeCalls c @ e \<and> (\<forall>x\<in>set e. isExtraction x))
       \<and> (\<forall>b. res = Inr b \<longrightarrow>
             (\<forall>path. (\<exists>n\<in>set (outputFolderNames c). inFolder n path) \<and> path \<notin> fst ` set blob
                 \<longrightarrow> projectFiles w' path = None))
       \<and> (res = Inr True \<longrightarrow>
             projectFiles w' = extractEntries blob (purge (outputFolderNames c) (projectFiles w))
             \<and> (\<forall>env2 w2. tryRestoreFromCacheAsync c env2 w' = (Inr True, w2)
                   \<longrightarrow> projectFiles w2 = projectFiles w'))"
proof -
  from assms have run: "restoreWithCacheId c env cid w = (res, w')"
    by (simp add: tryRestore_known)
  note h = restore_hit [OF assms(3) run]
  from h(1) have c1: "\<exists>e. calls w' = calls w @ queryCalls c w cid @ purgeCalls c @ e \<and> (\<forall>x\<in>set e. isExtraction x)"
    by blast
  have c2: "projectFiles w' path = None"
    if "res = Inr b" "(\<exists>n\<in>set (outputFolderNames c). inFolder n path) \<and> path \<notin> fst ` set blob" for b path
  proof -
    from h(5) that(1) have "\<not> (\<exists>n\<in>set (outputFolderNames c). deleteFolderFails env n)" by auto
    from h(4) [OF this] that(2) show ?thesis by blast
  qed
  have c3: "projectFiles w2 = projectFiles w'"
    if t: "res = Inr True" and again: "tryRestoreFromCacheAsync c env2 w' = (Inr True, w2)" for env2 w2
  proof -
    from again assms(1,2) have run2: "restoreWithCacheId c env2 cid w' = (Inr True, w2)"
      by (simp add: tryRestore_known)
    from restore_hit(3) [OF h(2) run2]
    have "projectFiles w2 = extractEntries blob (purge (outputFolderNames c) (projectFiles w'))" by simp
    with h(3) [OF t] show ?thesis by (simp add: restore_twice_files)
  qed
  from c1 c2 c3 h(3) show ?thesis by blast
qed

lemma sample_restore:
  "tryRestoreFromCacheAsync sampleCache sampleEnv sampleWorld
     = (Inr True,
        \<lparr>localCache = [''k1'' \<mapsto> sampleArchive], cloudCache = [''k1'' \<mapsto> sampleArchive],
         projectFiles = extractEntries sampleArchive
            (purge [''lib''] [''lib/stale.js'' \<mapsto> ''old'', ''src/index.ts'' \<mapsto> ''source'']),
         terminalOutput =
           [(SevVerbose, ''This project was not found in the local build cache. Querying the cloud build cache.''),
            (SevLog, ''Build cache hit.''),
            (SevVerbose, ''Clearing cached folders: lib''),
            (SevLog, ''Successfully restored output from the build cache.'')],
         calls = [LocalTryGet ''k1'', CloudTryGet ''k1'', LocalTrySet ''k1'',
                  DeleteFolder ''/repo/a/lib'', TarUntar ''/cache/k1'']\<rparr>)"
  by (simp add: tryRestoreFromCacheAsync_def restoreWithCacheId_def queryCaches_def sampleCache_def
      sampleEnv_def sampleWorld_def Let_def recordCall_def terminalWrite_def restoreFromEntry_def
      deleteFolders_eq untarWithUtility_def reportRestore_def)


lemma sample_restore_again:
  "fst (tryRestoreFromCacheAsync sampleCache sampleEnv
          (snd (tryRestoreFromCacheAsync sampleCache sampleEnv sampleWorld))) = Inr True"
  unfolding sample_restore
  by (simp add: tryRestoreFromCacheAsync_def restoreWithCacheId_def queryCaches_def sampleCache_def
      sampleEnv_def Let_def recordCall_def terminalWrite_def restoreFromEntry_def
      deleteFolders_eq untarWithUtility_def reportRestore_def)

text \<open>The stale file of the sample project is gone after the restore, and a second
  restore changes no file.\<close>

theorem restore_purges_before_extracting_witness:
  "fst (tryRestoreFromCacheAsync sampleCache sampleEnv sampleWorld) = Inr True
   \<and> projectFiles sampleWorld ''lib/stale.js'' = Some ''old''
   \<and> projectFiles (snd (tryRestoreFromCacheAsync sampleCache sampleEnv sampleWorld)) ''lib/stale.js'' = None
   \<and> projectFiles (snd (tryRestoreFromCacheAsync sampleCache sampleEnv
         (snd (tryRestoreFromCacheAsync sampleCache sampleEnv sampleWorld))))
       = projectFiles (snd (tryRestoreFromCacheAsync sampleCache sampleEnv sampleWorld))"
proof -
  let ?w1 = "snd (tryRestoreFromCacheAsync sampleCache sampleEnv sampleWorld)"
  let ?w2 = "snd (tryRestoreFromCacheAsync sampleCache sampleEnv ?w1)"
  have ne: "''k1'' \<noteq> []" by simp
  have ok: "fst (tryRestoreFromCacheAsync sampleCache sampleEnv sampleWorld) = Inr True"
    by (simp add: sample_restore)
  have again: "tryRestoreFromCacheAsync sampleCache sampleEnv ?w1 = (Inr True, ?w2)"
    using sample_restore_again by (metis surjective_pairing)
  have stale: "(\<exists>n\<in>set (outputFolderNames sampleCache). inFolder n ''lib/stale.js'')
      \<and> ''lib/stale.js'' \<notin> fst ` set sampleArchive"
    by (simp add: sampleCache_def sampleArchive_def inFolder_def)
  have old: "projectFiles sampleWorld ''lib/stale.js'' = Some ''old''"
    by (simp add: sampleWorld_def)
  from restore_purges_before_extracting [OF sample_facts(1) ne sample_facts(6) surjective_pairing,
      of sampleEnv] ok again stale
  have "projectFiles ?w1 ''lib/stale.js'' = None \<and> projectFiles ?w2 = projectFiles ?w1"
    by blast
  with ok old show ?thesis by blast
qed

lemma restoreFromEntry_both_fail:
  assumes inv: "truthy lp \<longrightarrow> localCache w1 cid = Some blob" "buf = None \<or> buf = Some blob"
      "truthy lp \<or> buf \<noteq> None"
    and ok: "\<not> (\<exists>n\<in>set (outputFolderNames c). deleteFolderFails env n)"
    and tarFails: "tarAvailable env \<longrightarrow> tarUntarExitCode env \<noteq> 0"
    and jsFails: "jsUntarFails env" and readable: "\<not> readFileFails env"
  shows "fst (restoreFromEntry c env cid lp buf upd w1) = Inr False
       \<and> (\<exists>e. calls (snd (restoreFromEntry c env cid lp buf upd w1)) = calls w1 @ purgeCalls c @ e
              \<and> JsTarExtract \<in> set e)"
proof (cases "tarAvailable env \<and> truthy lp")
  case True
  with inv have lc: "localCache w1 cid = Some blob" by simp
  from True lc assms show ?thesis
    by (auto simp: restoreFromEntry_def deleteFolders_eq filter_no_failure purgeCalls_def
        terminalWrite_def untarWithUtility_def recordCall_def Let_def reportRestore_def
        restoreInMemory_def readFileToBuffer_def untarInMemory_def)
next
  case False
  with assms show ?thesis
    by (auto simp: restoreFromEntry_def deleteFolders_eq filter_no_failure purgeCalls_def
        terminalWrite_def recordCall_def Let_def reportRestore_def
        restoreInMemory_def readFileToBuffer_def untarInMemory_def
        split: option.splits)
qed

text \<open>
  Claim C10. Let an entry be found and the purge succeed. If \<open>tar\<close>, where it is
  available, exits with a nonzero code, and the in-process extraction fails as well,
  then \<open>tryRestoreFromCacheAsync\<close> returns \<open>false\<close> after the output folders were
  purged and the in-process extraction was tried: every file that was in an output
  folder and is not a member of the archive is lost.
\<close>

theorem failed_restore_leaves_folders_purged:
  assumes "cacheId c = Some cid" "cid \<noteq> []" "foundEntry c w cid = Some blob"
    and "\<not> (\<exists>n\<in>set (outputFolderNames c). deleteFolderFails env n)"
    and "tarAvailable env \<longrightarrow> tarUntarExitCode env \<noteq> 0"
    and "jsUntarFails env" and "\<not> readFileFails env"
  shows "\<exists>w'. tryRestoreFromCacheAsync c env w = (Inr False, w')
          \<and> (\<exists>e. calls w' = calls w @ queryCalls c w cid @ purgeCalls c @ e \<and> JsTarExtract \<in> set e)
          \<and> (\<forall>path. (\<exists>n\<in>set (outputFolderNames c). inFolder n path) \<and> path \<notin> fst ` set blob
                \<longrightarrow> projectFiles w' path = None)"
proof -
  obtain lp buf upd w1 where q: "queryCaches c env cid w = ((lp, buf, upd), w1)"
    by (metis prod_cases3 surj_pair)
  note qo = queryCaches_outcome [OF q]
  from qo(4) assms(3) have hit: "\<not> (\<not> truthy lp \<and> buf = None)" by simp
  from qo(5) [OF assms(3)] have inv: "truthy lp \<longrightarrow> localCache w1 cid = Some blob"
    "buf = None \<or> buf = Some blob" "truthy lp \<or> buf \<noteq> None"
    by simp_all
  obtain res w' where r: "restoreFromEntry c env cid lp buf upd w1 = (res, w')"
    by (cases "restoreFromEntry c env cid lp buf upd w1")
  from restoreFromEntry_both_fail [OF inv assms(4-7), where upd=upd] r
  obtain e where res: "res = Inr False" and e: "calls w' = calls w1 @ purgeCalls c @ e"
    "JsTarExtract \<in> set e" by auto
  from hit r assms(1,2) have run: "restoreWithCacheId c env cid w = (res, w')"
    and run': "tryRestoreFromCacheAsync c env w = (res, w')"
    by (auto simp: restoreWithCacheId_def q tryRestore_known)
  from e qo(1) have c1: "\<exists>e. calls w' = calls w @ queryCalls c w cid @ purgeCalls c @ e \<and> JsTarExtract \<in> set e"
    by simp
  have c2: "\<forall>path. (\<exists>n\<in>set (outputFolderNames c). inFolder n path) \<and> path \<notin> fst ` set blob
                \<longrightarrow> projectFiles w' path = None"
    using restore_hit(4) [OF assms(3) run assms(4)] by blast
  from run' res c1 c2 show ?thesis by blast
qed

text \<open>The failed restore of the sample project returns \<open>false\<close> and has deleted the
  file that was in \<open>lib\<close>.\<close>

theorem failed_restore_leaves_folders_purged_witness:
  "fst (tryRestoreFromCacheAsync sampleCache
          (sampleEnv\<lparr>tarUntarExitCode := 2, jsUntarFails := True\<rparr>) sampleWorld) = Inr False
   \<and> projectFiles sampleWorld ''lib/stale.js'' = Some ''old''
   \<and> projectFiles (snd (tryRestoreFromCacheAsync sampleCache
          (sampleEnv\<lparr>tarUntarExitCode := 2, jsUntarFails := True\<rparr>) sampleWorld)) ''lib/stale.js'' = None"
proof -
  let ?env = "sampleEnv\<lparr>tarUntarExitCode := 2, jsUntarFails := True\<rparr>"
  have ne: "''k1'' \<noteq> []" by simp
  have e: "\<not> (\<exists>n\<in>set (outputFolderNames sampleCache). deleteFolderFails ?env n)"
    "tarAvailable ?env \<longrightarrow> tarUntarExitCode ?env \<noteq> 0" "jsUntarFails ?env" "\<not> readFileFails ?env"
    by (simp_all add: sampleEnv_def)
  have stale: "(\<exists>n\<in>set (outputFolderNames sampleCache). inFolder n ''lib/stale.js'')
      \<and> ''lib/stale.js'' \<notin> fst ` set sampleArchive"
    by (simp add: sampleCache_def sampleArchive_def inFolder_def)
  have old: "projectFiles sampleWorld ''lib/stale.js'' = Some ''old''"
    by (simp add: sampleWorld_def)
  from failed_restore_leaves_folders_purged [OF sample_facts(1) ne sample_facts(6) e] stale
  obtain w' where "tryRestoreFromCacheAsync sampleCache ?env sampleWorld = (Inr False, w')"
    "projectFiles w' ''lib/stale.js'' = None" by blast
  with old show ?thesis by simp
qed

subsection \<open>Saving\<close>

lemma getPathsInFolder_Cons:
  "getPathsInFolder posixPrefix (folderEntry # rest)
     = (fst (getPathsOfEntry posixPrefix folderEntry) @ fst (getPathsInFolder posixPrefix rest),
        snd (getPathsOfEntry posixPrefix folderEntry) @ snd (getPathsInFolder posixPrefix rest))"
  by (simp add: split_def Let_def)

lemma links_of_list:
  assumes "\<And>e p. e \<in> set entries \<Longrightarrow> (snd (getPathsOfEntry p e) \<noteq> []) = entryHasSymbolicLink e"
  shows "(snd (getPathsInFolder posixPrefix entries) \<noteq> []) = hasSymbolicLink entries"
  using assms
proof (induction entries)
  case Nil
  then show ?case by simp
next
  case (Cons e entries)
  then show ?case by (simp add: getPathsInFolder_Cons del: getPathsInFolder.simps(2))
qed

lemma links_of_entry:
  "(snd (getPathsOfEntry posixPrefix folderEntry) \<noteq> []) = entryHasSymbolicLink folderEntry"
proof (induction folderEntry arbitrary: posixPrefix)
  case (FileEntry name)
  then show ?case by simp
next
  case (SymbolicLink name)
  then show ?case by simp
next
  case (Directory name entries)
  then show ?case using links_of_list [of entries] by simp
qed

lemma links_iff_hasSymbolicLink:
  "snd (getPathsInFolder posixPrefix entries) \<noteq> [] \<longleftrightarrow> hasSymbolicLink entries"
  using links_of_list [of entries posixPrefix] links_of_entry by blast

lemma fold_symbolicLinkPathCallback:
  "fold symbolicLinkPathCallback links w
     = w\<lparr>terminalOutput := terminalOutput w @ symbolicLinkErrors links\<rparr>"
  by (induction links arbitrary: w)
    (simp_all add: symbolicLinkPathCallback_def terminalWrite_def symbolicLinkErrors_def)

lemma collectFolders_issue:
  "collectFolders folders True paths w = (None, w)"
  by (cases folders) auto

lemma collectFolders_symbolic_link:
  assumes "find (\<lambda>(name, entries). hasSymbolicLink entries) folders = Some (name, entries)"
  shows "collectFolders folders False paths w
     = (None, w\<lparr>terminalOutput := terminalOutput w
                   @ symbolicLinkErrors (snd (getPathsInFolder name entries))\<rparr>)"
  using assms
proof (induction folders arbitrary: paths)
  case Nil
  then show ?case by simp
next
  case (Cons f folders)
  obtain n es where f: "f = (n, es)" by (cases f)
  show ?case
  proof (cases "hasSymbolicLink es")
    case True
    with Cons.prems f have "n = name" "es = entries" by simp_all
    with True f show ?thesis
      using links_iff_hasSymbolicLink [of name entries]
      by (simp add: split_def collectFolders_issue fold_symbolicLinkPathCallback)
  next
    case False
    with Cons.prems f have "find (\<lambda>(name, entries). hasSymbolicLink entries) folders = Some (name, entries)"
      by simp
    from Cons.IH [OF this] False f show ?thesis
      using links_iff_hasSymbolicLink [of n es]
      by (simp add: split_def)
  qed
qed

text \<open>
  Claim C6. Let the cache id be known and let some output folder that exists hold a
  symbolic link at any depth. Then the enumeration stops with the first such folder:
  every symbolic link of that folder is reported by an error line that names its path,
  and \<open>trySetCacheEntryAsync\<close> returns \<open>false\<close>. Nothing else happens: no collaborator
  is called, so no archive is created and neither cache is written, and no exception
  is raised.
\<close>

theorem symbolic_link_skips_cache_write:
  assumes "cacheId c = Some cid" "cid \<noteq> []"
    and "(name, entries) \<in> set (existingOutputFolders c tree)" "hasSymbolicLink entries"
  shows "\<exists>name' entries'.
           find (\<lambda>(name, entries). hasSymbolicLink entries) (existingOutputFolders c tree) = Some (name', entries')
         \<and> snd (getPathsInFolder name' entries') \<noteq> []
         \<and> trySetCacheEntryAsync c env tree w
             = (Inr False,
                w\<lparr>terminalOutput := terminalOutput w
                     @ symbolicLinkErrors (snd (getPathsInFolder name' entries'))\<rparr>)"
proof -
  from assms(3,4) obtain f where
    "find (\<lambda>(name, entries). hasSymbolicLink entries) (existingOutputFolders c tree) = Some f"
    by (cases "find (\<lambda>(name, entries). hasSymbolicLink entries) (existingOutputFolders c tree)")
      (auto simp: find_None_iff)
  then obtain name' entries' where
    f: "find (\<lambda>(name, entries). hasSymbolicLink entries) (existingOutputFolders c tree) = Some (name', entries')"
    by (cases f) auto
  then have "hasSymbolicLink entries'" by (auto simp: find_Some_iff)
  then have l: "snd (getPathsInFolder name' entries') \<noteq> []"
    by (simp add: links_iff_hasSymbolicLink)
  from collectFolders_symbolic_link [OF f] assms(1,2)
  have "trySetCacheEntryAsync c env tree w
             = (Inr False,
                w\<lparr>terminalOutput := terminalOutput w
                     @ symbolicLinkErrors (snd (getPathsInFolder name' entries'))\<rparr>)"
    by (simp add: trySetCacheEntryAsync_def tryCollectPathsToCacheAsync_def)
  with f l show ?thesis by blast
qed

lemma sample_existing:
  "existingOutputFolders sampleCache sampleTreeWithLink
     = [(''lib'', [FileEntry ''index.js'', Directory ''sub'' [SymbolicLink ''link'', FileEntry ''a.js'']])]"
  by (simp add: existingOutputFolders_def sampleCache_def sampleTreeWithLink_def List.map_filter_simps)

text \<open>The sample tree has the link \<open>lib/sub/link\<close>.\<close>

theorem symbolic_link_skips_cache_write_witness:
  "\<forall>env w. trySetCacheEntryAsync sampleCache env sampleTreeWithLink w
     = (Inr False, w\<lparr>terminalOutput := terminalOutput w @ symbolicLinkErrors [''lib/sub/link'']\<rparr>)"
proof (intro allI)
  fix env w
  have ne: "''k1'' \<noteq> []" by simp
  have m: "(''lib'', [FileEntry ''index.js'', Directory ''sub'' [SymbolicLink ''link'', FileEntry ''a.js'']])
      \<in> set (existingOutputFolders sampleCache sampleTreeWithLink)"
    by (simp add: sample_existing)
  have h: "hasSymbolicLink [FileEntry ''index.js'', Directory ''sub'' [SymbolicLink ''link'', FileEntry ''a.js'']]"
    by simp
  from symbolic_link_skips_cache_write [OF sample_facts(1) ne m h, of env w]
  show "trySetCacheEntryAsync sampleCache env sampleTreeWithLink w
     = (Inr False, w\<lparr>terminalOutput := terminalOutput w @ symbolicLinkErrors [''lib/sub/link'']\<rparr>)"
    by (auto simp: sample_existing)
qed

text \<open>
  Claim C5. A write that fails should be reported by a warning for its tier, and the
  save should return its flag. That holds of the cloud write, whose promise resolves to
  \<open>false\<close>. The write of the local provider is awaited outside any \<open>try\<close>: when
  \<open>tar\<close> is not available and the local provider fails to write the buffer, as the
  \<open>catch\<close> around the same call in \<open>tryRestoreFromCacheAsync\<close> expects it to, the
  rejection leaves \<open>trySetCacheEntryAsync\<close> as an exception and the warning
  \<open>Unable to set local cache entry\<close> is never written.
\<close>

theorem local_write_failure_escapes:
  "fst (trySetCacheEntryAsync sampleCache (sampleEnv\<lparr>tarAvailable := False, localSetFails := True\<rparr>)
          sampleTree w)
     = Inl (JsError ''the local cache entry could not be written'')
   \<and> trySetCacheEntryAsync sampleCache (sampleEnv\<lparr>tarAvailable := False, cloudSetResult := False\<rparr>)
          sampleTree w
     = (Inr False,
        w\<lparr>localCache := (localCache w)(''k1'' \<mapsto> [(''lib/index.js'', ''data'')]),
          terminalOutput := terminalOutput w
            @ [(SevVerbose, ''Caching build output folders: lib''),
               (SevWarning, ''Unable to set cloud cache entry.'')],
          calls := calls w @ [JsTarCreate [''lib/index.js''], LocalTrySet ''k1'', CloudTrySet ''k1'']\<rparr>)"
  by (simp add: trySetCacheEntryAsync_def tryCollectPathsToCacheAsync_def existingOutputFolders_def
      sampleCache_def sampleTree_def sampleEnv_def List.map_filter_simps saveWithCacheId_def
      createWithUtility_def startLocalWrite_def startCloudWrite_def reportSave_def Let_def
      recordCall_def terminalWrite_def)

end
